theory Spec2Isabelle
  imports Complex_Main
begin

section \<open>Strings and address normalisation\<close>

text \<open>
  JavaScript strings are modelled as \<open>string\<close>. Wallet addresses are hexadecimal ASCII
  text, and \<open>String.prototype.toLowerCase\<close> is modelled on the ASCII letters: every
  other character is left as it is.
\<close>

definition upper_letters :: string where
  "upper_letters = ''ABCDEFGHIJKLMNOPQRSTUVWXYZ''"

definition lower_letters :: string where
  "lower_letters = ''abcdefghijklmnopqrstuvwxyz''"

definition letter_table :: "(char \<times> char) list" where
  "letter_table = zip upper_letters lower_letters"

definition lower_char :: "char \<Rightarrow> char" where
  "lower_char c = (case map_of letter_table c of Some d \<Rightarrow> d | None \<Rightarrow> c)"

definition toLowerCase :: "string \<Rightarrow> string" where
  "toLowerCase s = map lower_char s"

text \<open>
  The specification's notion of "the same address in another casing", written without
  reference to \<open>toLowerCase\<close>: the two strings have the same length and, position by
  position, hold the same character or the two cases of one letter.
\<close>

definition same_letter :: "char \<Rightarrow> char \<Rightarrow> bool" where
  "same_letter c d =
     (c = d \<or> list_ex (\<lambda>(u, l). (c = u \<and> d = l) \<or> (c = l \<and> d = u)) letter_table)"

definition same_address_any_casing :: "string \<Rightarrow> string \<Rightarrow> bool" where
  "same_address_any_casing a b = list_all2 same_letter a b"

section \<open>Runtime services and errors\<close>

text \<open>
  The built-ins whose results depend on floating point or on date parsing are parameters
  of the model: \<open>parseFloat\<close>, the \<open>Date\<close> constructor applied to a string, and
  \<open>Number.prototype.toFixed\<close> on a finite number.
\<close>

record runtime =
  parseFloat :: "string \<Rightarrow> real"
  parseDate :: "string \<Rightarrow> nat"
  toFixed :: "nat \<Rightarrow> real \<Rightarrow> string"

datatype error =
    TypeError string
  | ApiError nat
  | FetchError
  | SyntaxError

datatype completion = Normal | Throw error

section \<open>Market data client (PolymarketAPI)\<close>

text \<open>
  An order object of the venue's JSON array, before normalisation. Its fields are taken
  to be present and to be strings, \<open>filled\<close> apart, which may be missing.
\<close>

record raw_order =
  raw_id :: string
  raw_trader :: string
  raw_token :: string
  raw_price :: string
  raw_size :: string
  raw_side :: string
  raw_status :: string
  raw_createdAt :: string
  raw_filled :: "string option"

text \<open>
  The result of \<open>parseOrders\<close>. The field \<open>rawData\<close>, a reference to the raw object
  kept for debugging, is read by nothing and is left out.
\<close>

record order =
  o_id :: string
  o_trader :: string
  o_token :: string
  o_price :: real
  o_size :: real
  o_side :: string
  o_status :: string
  o_market :: string
  o_createdAt :: nat
  o_filledAmount :: real

definition baseURL :: string where
  "baseURL = ''https://clob.polymarket.com''"

definition tokenToMarketMap :: "(string \<times> string) list" where
  "tokenToMarketMap =
     [(''0x...token1'', ''US Election 2024 - Winner''),
      (''0x...token2'', ''BTC Price 2025'')]"

definition extractMarketFromToken :: "string \<Rightarrow> string" where
  "extractMarketFromToken tokenId =
     (case map_of tokenToMarketMap tokenId of
        Some m \<Rightarrow> if m = [] then ''Market: '' @ take 8 tokenId @ ''...'' else m
      | None \<Rightarrow> ''Market: '' @ take 8 tokenId @ ''...'')"

definition parseOrder :: "runtime \<Rightarrow> raw_order \<Rightarrow> order" where
  "parseOrder rt raw =
     \<lparr> o_id = raw_id raw,
       o_trader = raw_trader raw,
       o_token = raw_token raw,
       o_price = parseFloat rt (raw_price raw),
       o_size = parseFloat rt (raw_size raw),
       o_side = raw_side raw,
       o_status = raw_status raw,
       o_market = extractMarketFromToken (raw_token raw),
       o_createdAt = parseDate rt (raw_createdAt raw),
       o_filledAmount =
         (case raw_filled raw of
            None \<Rightarrow> 0
          | Some f \<Rightarrow> if f = [] then 0 else parseFloat rt f) \<rparr>"

definition parseOrders :: "runtime \<Rightarrow> raw_order list \<Rightarrow> order list" where
  "parseOrders rt orders = map (parseOrder rt) orders"

text \<open>
  What one \<open>fetch\<close> call can produce: a transport failure (the promise rejects), or a
  response with a status code and a body. The body is not JSON, or JSON that is not an
  array, or an array of order objects.
\<close>

datatype json_body = InvalidJson | NotAnArray | OrderArray "raw_order list"

datatype fetch_result = TransportError | Response nat json_body

type_synonym network = "string \<Rightarrow> fetch_result"

text \<open>\<open>response.ok\<close> of the fetch API: the status is in the range 200 to 299.\<close>

definition response_ok :: "nat \<Rightarrow> bool" where
  "response_ok status = (200 \<le> status \<and> status \<le> 299)"

text \<open>The body of the \<open>try\<close> block of \<open>getWalletOrders\<close>, every throw as a value.\<close>

definition getWalletOrders_try :: "runtime \<Rightarrow> network \<Rightarrow> string \<Rightarrow> error + order list" where
  "getWalletOrders_try rt fetch walletAddress =
     (case fetch (baseURL @ ''/orders?trader='' @ toLowerCase walletAddress) of
        TransportError \<Rightarrow> Inl FetchError
      | Response status body \<Rightarrow>
          if \<not> response_ok status then Inl (ApiError status)
          else (case body of
                  InvalidJson \<Rightarrow> Inl SyntaxError
                | NotAnArray \<Rightarrow> Inl (TypeError ''orders.map is not a function'')
                | OrderArray orders \<Rightarrow> Inr (parseOrders rt orders)))"

text \<open>The \<open>catch\<close> clause logs the error and returns the empty array.\<close>

definition getWalletOrders :: "runtime \<Rightarrow> network \<Rightarrow> string \<Rightarrow> order list" where
  "getWalletOrders rt fetch walletAddress =
     (case getWalletOrders_try rt fetch walletAddress of
        Inl e \<Rightarrow> []
      | Inr orders \<Rightarrow> orders)"

section \<open>The registry of EnhancedCopyTrader\<close>

text \<open>
  A trade object is created once and then shared: \<open>processOrder\<close> pushes the same
  object onto the wallet's \<open>trades\<close> array and onto \<open>tradeHistory\<close>, and
  \<open>updateOrderStatus\<close> assigns to its fields. The model keeps the trade objects in a
  store (\<open>heap\<close>, addressed by position, allocation appends) and both arrays hold
  references into it.
\<close>

record trade =
  t_id :: string
  t_wallet :: string
  t_nickname :: string
  t_market :: string
  t_side :: string
  t_size :: real
  t_price :: real
  t_status :: string
  t_token :: string
  t_createdAt :: nat
  t_detectedAt :: nat
  t_testMode :: bool
  t_pnl :: real
  t_outcome :: string
  t_updatedAt :: "nat option"

type_synonym ref = nat

record wallet =
  nickname :: string
  address :: string
  active :: bool
  lastChecked :: nat
  trades :: "ref list"

record stats =
  totalTrades :: int
  profitableTrades :: int
  totalPnl :: real
  activeTrades :: int

text \<open>
  \<open>copiedWallets\<close> is a JavaScript \<open>Map\<close>: it iterates in insertion order, so it is
  an association list. \<open>isMonitoring\<close> stands for the running interval timer and socket.
\<close>

record copytrader =
  copiedWallets :: "(string \<times> wallet) list"
  tradeHistory :: "ref list"
  isMonitoring :: bool
  testMode :: bool
  stats :: stats
  heap :: "trade list"

text \<open>\<open>Map.prototype.set\<close>: an existing key keeps its position, a new key goes last.\<close>

fun map_set :: "'k \<Rightarrow> 'v \<Rightarrow> ('k \<times> 'v) list \<Rightarrow> ('k \<times> 'v) list" where
  "map_set k v [] = [(k, v)]"
| "map_set k v ((k', v') # rest) =
     (if k' = k then (k, v) # rest else (k', v') # map_set k v rest)"

text \<open>\<open>Map.prototype.delete\<close>.\<close>

definition map_delete :: "'k \<Rightarrow> ('k \<times> 'v) list \<Rightarrow> ('k \<times> 'v) list" where
  "map_delete k m = filter (\<lambda>(k', v). k' \<noteq> k) m"

text \<open>The constructor; \<open>config.bot.testMode\<close> is \<open>true\<close>.\<close>

definition constructor :: copytrader where
  "constructor =
     \<lparr> copiedWallets = [],
       tradeHistory = [],
       isMonitoring = False,
       testMode = True,
       stats = \<lparr> totalTrades = 0, profitableTrades = 0, totalPnl = 0, activeTrades = 0 \<rparr>,
       heap = [] \<rparr>"

text \<open>The test \<open>t.id === order.id\<close> on the trade object behind a reference.\<close>

definition has_id :: "trade list \<Rightarrow> string \<Rightarrow> ref \<Rightarrow> bool" where
  "has_id h orderId r = (r < length h \<and> t_id (h ! r) = orderId)"

definition createTradeRecord :: "nat \<Rightarrow> order \<Rightarrow> copytrader \<Rightarrow> trade" where
  "createTradeRecord now order s =
     \<lparr> t_id = o_id order,
       t_wallet = o_trader order,
       t_nickname =
         (case map_of (copiedWallets s) (toLowerCase (o_trader order)) of
            None \<Rightarrow> ''Unknown''
          | Some w \<Rightarrow> if nickname w = [] then ''Unknown'' else nickname w),
       t_market = o_market order,
       t_side = o_side order,
       t_size = o_size order,
       t_price = o_price order,
       t_status = o_status order,
       t_token = o_token order,
       t_createdAt = o_createdAt order,
       t_detectedAt = now,
       t_testMode = testMode s,
       t_pnl = 0,
       t_outcome = ''PENDING'',
       t_updatedAt = None \<rparr>"

text \<open>
  \<open>processOrder\<close>. The class defines neither \<open>updateTrade\<close> nor
  \<open>executeCopyTrade\<close>: calling either one throws a TypeError, the first before any
  assignment of the branch, the second after the new trade has been recorded.
\<close>

definition processOrder :: "nat \<Rightarrow> order \<Rightarrow> copytrader \<Rightarrow> completion \<times> copytrader" where
  "processOrder now order s =
     (case map_of (copiedWallets s) (toLowerCase (o_trader order)) of
        None \<Rightarrow> (Normal, s)
      | Some wallet \<Rightarrow>
          (case find (has_id (heap s) (o_id order)) (trades wallet) of
             None \<Rightarrow>
               (let trade = createTradeRecord now order s;
                    r = length (heap s);
                    s' = s\<lparr> heap := heap s @ [trade],
                            copiedWallets :=
                              map_set (toLowerCase (o_trader order))
                                (wallet\<lparr> trades := trades wallet @ [r] \<rparr>) (copiedWallets s),
                            tradeHistory := tradeHistory s @ [r],
                            stats := (stats s)\<lparr>
                              totalTrades := totalTrades (stats s) + 1,
                              activeTrades :=
                                (if o_status order = ''OPEN'' then activeTrades (stats s) + 1
                                 else activeTrades (stats s)) \<rparr> \<rparr>
                in if testMode s then (Normal, s')
                   else (Throw (TypeError ''this.executeCopyTrade is not a function''), s'))
           | Some existingTrade \<Rightarrow>
               (Throw (TypeError ''this.updateTrade is not a function''), s)))"

text \<open>\<open>orders.forEach(order => this.processOrder(order))\<close>: a throw ends the loop.\<close>

fun forEach_processOrder :: "nat \<Rightarrow> order list \<Rightarrow> copytrader \<Rightarrow> completion \<times> copytrader" where
  "forEach_processOrder now [] s = (Normal, s)"
| "forEach_processOrder now (order # rest) s =
     (case processOrder now order s of
        (Normal, s') \<Rightarrow> forEach_processOrder now rest s'
      | (Throw e, s') \<Rightarrow> (Throw e, s'))"

definition pollWalletOrders ::
  "runtime \<Rightarrow> network \<Rightarrow> nat \<Rightarrow> string \<Rightarrow> copytrader \<Rightarrow> completion \<times> copytrader" where
  "pollWalletOrders rt fetch now walletAddress s =
     forEach_processOrder now (getWalletOrders rt fetch walletAddress) s"

definition startMonitoring :: "copytrader \<Rightarrow> copytrader" where
  "startMonitoring s = s\<lparr> isMonitoring := True \<rparr>"

text \<open>
  \<open>addWallet\<close>, taken as one step (the events that could run while the fetch is awaited
  are not interleaved). The returned \<open>walletData\<close> is the object stored in the map.
\<close>

definition addWallet ::
  "runtime \<Rightarrow> network \<Rightarrow> nat \<Rightarrow> string \<Rightarrow> string \<Rightarrow> copytrader \<Rightarrow> completion \<times> copytrader" where
  "addWallet rt fetch now walletAddress nick s =
     (let walletData =
            \<lparr> nickname = nick, address = toLowerCase walletAddress, active = True,
              lastChecked = now, trades = [] \<rparr>;
          s1 = s\<lparr> copiedWallets :=
                    map_set (toLowerCase walletAddress) walletData (copiedWallets s) \<rparr>
      in case pollWalletOrders rt fetch now walletAddress s1 of
           (Throw e, s2) \<Rightarrow> (Throw e, s2)
         | (Normal, s2) \<Rightarrow>
             (Normal, if \<not> isMonitoring s2 then startMonitoring s2 else s2))"

definition removeWallet :: "string \<Rightarrow> copytrader \<Rightarrow> copytrader" where
  "removeWallet walletAddress s =
     s\<lparr> copiedWallets := map_delete (toLowerCase walletAddress) (copiedWallets s) \<rparr>"

definition setWalletActive :: "string \<Rightarrow> bool \<Rightarrow> copytrader \<Rightarrow> copytrader" where
  "setWalletActive walletAddress flag s =
     (case map_of (copiedWallets s) (toLowerCase walletAddress) of
        None \<Rightarrow> s
      | Some wallet \<Rightarrow>
          s\<lparr> copiedWallets :=
                map_set (toLowerCase walletAddress) (wallet\<lparr> active := flag \<rparr>)
                  (copiedWallets s) \<rparr>)"

text \<open>
  The interval callback of \<open>startPolling\<close>: the addresses of the wallets whose
  \<open>active\<close> field is true, in map order, each polled in turn; a rejected poll ends
  the callback.
\<close>

definition sweepTargets :: "(string \<times> wallet) list \<Rightarrow> string list" where
  "sweepTargets entries = map fst (filter (\<lambda>(a, wallet). active wallet) entries)"

fun pollEach ::
  "runtime \<Rightarrow> network \<Rightarrow> nat \<Rightarrow> string list \<Rightarrow> copytrader \<Rightarrow> completion \<times> copytrader" where
  "pollEach rt fetch now [] s = (Normal, s)"
| "pollEach rt fetch now (a # rest) s =
     (case pollWalletOrders rt fetch now a s of
        (Normal, s') \<Rightarrow> pollEach rt fetch now rest s'
      | (Throw e, s') \<Rightarrow> (Throw e, s'))"

definition pollingSweep :: "runtime \<Rightarrow> network \<Rightarrow> nat \<Rightarrow> copytrader \<Rightarrow> completion \<times> copytrader" where
  "pollingSweep rt fetch now s = pollEach rt fetch now (sweepTargets (copiedWallets s)) s"

text \<open>
  \<open>updateOrderStatus\<close>: the first wallet, in map order, that holds a trade with the
  identifier has that trade's status and update time assigned; then
  \<open>this.updateDashboard()\<close> is called, which the class does not define, so the call
  throws after the assignments.
\<close>

fun updateOrderStatus_loop ::
  "nat \<Rightarrow> string \<Rightarrow> string \<Rightarrow> (string \<times> wallet) list \<Rightarrow> copytrader \<Rightarrow> completion \<times> copytrader" where
  "updateOrderStatus_loop now orderId status [] s = (Normal, s)"
| "updateOrderStatus_loop now orderId status ((k, wallet) # rest) s =
     (case find (has_id (heap s) orderId) (trades wallet) of
        None \<Rightarrow> updateOrderStatus_loop now orderId status rest s
      | Some r \<Rightarrow>
          (Throw (TypeError ''this.updateDashboard is not a function''),
           s\<lparr> heap := (heap s)[r := (heap s ! r)\<lparr> t_status := status, t_updatedAt := Some now \<rparr>],
              stats :=
                (if status = ''FILLED''
                 then (stats s)\<lparr> activeTrades := activeTrades (stats s) - 1 \<rparr>
                 else stats s) \<rparr>))"

definition updateOrderStatus :: "nat \<Rightarrow> string \<Rightarrow> string \<Rightarrow> copytrader \<Rightarrow> completion \<times> copytrader" where
  "updateOrderStatus now orderId status s =
     updateOrderStatus_loop now orderId status (copiedWallets s) s"

text \<open>
  A decoded push message: its \<open>type\<close>, and the rest of the envelope, which the handler
  reads as a raw order (\<open>parseOrders([data])[0]\<close>) or for its \<open>id\<close>.
\<close>

record ws_message =
  msg_type :: string
  msg_data :: raw_order

definition handleWebSocketMessage ::
  "runtime \<Rightarrow> nat \<Rightarrow> ws_message \<Rightarrow> copytrader \<Rightarrow> completion \<times> copytrader" where
  "handleWebSocketMessage rt now data s =
     (if msg_type data = ''order_created'' \<or> msg_type data = ''order_updated''
      then processOrder now (parseOrder rt (msg_data data)) s
      else if msg_type data = ''order_filled''
      then updateOrderStatus now (raw_id (msg_data data)) ''FILLED'' s
      else if msg_type data = ''order_cancelled''
      then updateOrderStatus now (raw_id (msg_data data)) ''CANCELLED'' s
      else (Normal, s))"

section \<open>Dashboard\<close>

datatype jsvalue = JNumber real | JString string

record wallet_view =
  v_nickname :: string
  v_address :: string
  v_active :: bool
  v_trades :: nat
  v_profitable :: nat
  v_successRate :: jsvalue
  v_pnl :: string

record dashboard =
  d_wallets :: "wallet_view list"
  d_stats :: stats
  d_totalWallets :: nat
  d_testMode :: bool
  d_lastUpdated :: nat

text \<open>The trade objects behind a wallet's references.\<close>

definition wallet_trades :: "copytrader \<Rightarrow> wallet \<Rightarrow> trade list" where
  "wallet_trades s w = map (\<lambda>r. heap s ! r) (trades w)"

definition walletView :: "runtime \<Rightarrow> copytrader \<Rightarrow> wallet \<Rightarrow> wallet_view" where
  "walletView rt s w =
     (let ts = wallet_trades s w;
          profitable = length (filter (\<lambda>t. t_pnl t > 0) ts)
      in \<lparr> v_nickname = nickname w,
           v_address = address w,
           v_active = active w,
           v_trades = length ts,
           v_profitable = profitable,
           v_successRate =
             (if length ts > 0
              then JString (toFixed rt 1 (real profitable / real (length ts) * 100))
              else JNumber 0),
           v_pnl = toFixed rt 2 (foldl (\<lambda>sum t. sum + t_pnl t) 0 ts) \<rparr>)"

definition getDashboardData :: "runtime \<Rightarrow> nat \<Rightarrow> copytrader \<Rightarrow> dashboard" where
  "getDashboardData rt now s =
     \<lparr> d_wallets = map (\<lambda>(k, w). walletView rt s w) (copiedWallets s),
       d_stats = stats s,
       d_totalWallets = length (copiedWallets s),
       d_testMode = testMode s,
       d_lastUpdated = now \<rparr>"

section \<open>Events and runs\<close>

text \<open>
  What can happen to a trader object: a management call, one firing of the polling
  timer, or one message of the push channel. Each event comes with the network and the
  clock it sees. An exception ends the event's own callback and nothing else: the push
  handler runs inside the \<open>try\<close> of the socket's message listener, and a rejected
  promise of a timer callback or of \<open>addWallet\<close> leaves the object as it was at the
  throw. A run therefore continues from the state at the throw.
\<close>

datatype event =
    AddWallet string string
  | RemoveWallet string
  | SetWalletActive string bool
  | PollTick
  | PushMessage ws_message

fun apply_event ::
  "runtime \<Rightarrow> network \<Rightarrow> nat \<Rightarrow> event \<Rightarrow> copytrader \<Rightarrow> completion \<times> copytrader" where
  "apply_event rt fetch now (AddWallet a nick) s = addWallet rt fetch now a nick s"
| "apply_event rt fetch now (RemoveWallet a) s = (Normal, removeWallet a s)"
| "apply_event rt fetch now (SetWalletActive a flag) s = (Normal, setWalletActive a flag s)"
| "apply_event rt fetch now PollTick s = pollingSweep rt fetch now s"
| "apply_event rt fetch now (PushMessage data) s = handleWebSocketMessage rt now data s"

fun run :: "runtime \<Rightarrow> (network \<times> nat \<times> event) list \<Rightarrow> copytrader \<Rightarrow> copytrader" where
  "run rt [] s = s"
| "run rt ((fetch, now, ev) # rest) s = run rt rest (snd (apply_event rt fetch now ev s))"

section \<open>Properties of a registry\<close>

text \<open>How many trades of a wallet carry a given order identifier.\<close>

definition trade_count :: "copytrader \<Rightarrow> wallet \<Rightarrow> string \<Rightarrow> nat" where
  "trade_count s w orderId = length (filter (has_id (heap s) orderId) (trades w))"

text \<open>
  The registries the code builds: the map has one entry per key, every reference of a
  wallet is an allocated trade object, and within one wallet no two trades share an
  identifier.
\<close>

definition keys_distinct :: "copytrader \<Rightarrow> bool" where
  "keys_distinct s = distinct (map fst (copiedWallets s))"

definition refs_valid :: "copytrader \<Rightarrow> bool" where
  "refs_valid s =
     (\<forall>(k, w) \<in> set (copiedWallets s). \<forall>r \<in> set (trades w). r < length (heap s))"

definition trade_ids :: "trade list \<Rightarrow> ref list \<Rightarrow> string list" where
  "trade_ids h rs = map (\<lambda>r. t_id (h ! r)) rs"

definition ids_unique :: "copytrader \<Rightarrow> bool" where
  "ids_unique s =
     (\<forall>(k, w) \<in> set (copiedWallets s). distinct (trade_ids (heap s) (trades w)))"

definition registry_ok :: "copytrader \<Rightarrow> bool" where
  "registry_ok s = (keys_distinct s \<and> refs_valid s \<and> ids_unique s)"

text \<open>No trade object is referenced from the lists of two wallets.\<close>

definition refs_owned :: "copytrader \<Rightarrow> bool" where
  "refs_owned s =
     (\<forall>(k1, w1) \<in> set (copiedWallets s). \<forall>(k2, w2) \<in> set (copiedWallets s).
        k1 \<noteq> k2 \<longrightarrow> set (trades w1) \<inter> set (trades w2) = {})"

text \<open>
  What polling and order processing can do to a registry: trade objects are appended to
  the store and references to the history, the keys of the map stay as they are, and a
  wallet record changes only by references to new trade objects at the end of its list.
\<close>

definition grows_to :: "copytrader \<Rightarrow> copytrader \<Rightarrow> bool" where
  "grows_to s s' =
     ((\<exists>ts. heap s' = heap s @ ts)
      \<and> (\<exists>rs. tradeHistory s' = tradeHistory s @ rs)
      \<and> map fst (copiedWallets s') = map fst (copiedWallets s)
      \<and> (\<forall>k w. map_of (copiedWallets s) k = Some w \<longrightarrow>
            (\<exists>extra. map_of (copiedWallets s') k = Some (w\<lparr> trades := trades w @ extra \<rparr>)
                     \<and> (\<forall>r \<in> set extra. length (heap s) \<le> r))))"

section \<open>The registry of server.js (CopyTrader)\<close>

text \<open>
  The single-file server keeps the same map, history and counters in module variables.
  Its trade objects are never assigned to after their creation, so they are held by
  value. They have no \<open>pnl\<close> property: reading it gives \<open>undefined\<close>, the \<open>None\<close>
  of \<open>st_pnl\<close>.
\<close>

record srv_trade =
  st_id :: string
  st_wallet :: string
  st_nickname :: string
  st_market :: string
  st_side :: string
  st_size :: real
  st_price :: real
  st_status :: string
  st_createdAt :: nat
  st_detectedAt :: nat
  st_testMode :: bool
  st_pnl :: "real option"

record srv_wallet_stats =
  ws_trades :: nat
  ws_profitable :: nat
  ws_successRate :: jsvalue
  ws_pnl :: jsvalue

record srv_wallet =
  sw_nickname :: string
  sw_address :: string
  sw_active :: bool
  sw_lastChecked :: nat
  sw_trades :: "srv_trade list"
  sw_stats :: srv_wallet_stats

record server =
  srv_copiedWallets :: "(string \<times> srv_wallet) list"
  srv_tradeHistory :: "srv_trade list"
  srv_stats :: stats
  srv_pollInterval :: bool

definition srv_initial :: server where
  "srv_initial =
     \<lparr> srv_copiedWallets = [],
       srv_tradeHistory = [],
       srv_stats = \<lparr> totalTrades = 0, profitableTrades = 0, totalPnl = 0, activeTrades = 0 \<rparr>,
       srv_pollInterval = False \<rparr>"

definition srv_extractMarketFromToken :: "string \<Rightarrow> string" where
  "srv_extractMarketFromToken tokenId = ''Market: '' @ take 8 tokenId @ ''...''"

definition srv_parseOrder :: "runtime \<Rightarrow> raw_order \<Rightarrow> order" where
  "srv_parseOrder rt raw =
     \<lparr> o_id = raw_id raw,
       o_trader = raw_trader raw,
       o_token = raw_token raw,
       o_price = parseFloat rt (raw_price raw),
       o_size = parseFloat rt (raw_size raw),
       o_side = raw_side raw,
       o_status = raw_status raw,
       o_market = srv_extractMarketFromToken (raw_token raw),
       o_createdAt = parseDate rt (raw_createdAt raw),
       o_filledAmount =
         (case raw_filled raw of
            None \<Rightarrow> 0
          | Some f \<Rightarrow> if f = [] then 0 else parseFloat rt f) \<rparr>"

definition srv_getWalletOrders_try :: "runtime \<Rightarrow> network \<Rightarrow> string \<Rightarrow> error + order list" where
  "srv_getWalletOrders_try rt fetch walletAddress =
     (case fetch (baseURL @ ''/orders?trader='' @ toLowerCase walletAddress) of
        TransportError \<Rightarrow> Inl FetchError
      | Response status body \<Rightarrow>
          if \<not> response_ok status then Inl (ApiError status)
          else (case body of
                  InvalidJson \<Rightarrow> Inl SyntaxError
                | NotAnArray \<Rightarrow> Inl (TypeError ''orders.map is not a function'')
                | OrderArray orders \<Rightarrow> Inr (map (srv_parseOrder rt) orders)))"

definition srv_getWalletOrders :: "runtime \<Rightarrow> network \<Rightarrow> string \<Rightarrow> order list" where
  "srv_getWalletOrders rt fetch walletAddress =
     (case srv_getWalletOrders_try rt fetch walletAddress of
        Inl e \<Rightarrow> []
      | Inr orders \<Rightarrow> orders)"

text \<open>
  \<open>processOrder(order, wallet)\<close>: the wallet object is an argument. It is threaded
  through together with the module state and written back by the caller. An
  identifier that is already present does nothing.
\<close>

definition srv_processOrder ::
  "nat \<Rightarrow> order \<Rightarrow> srv_wallet \<times> server \<Rightarrow> srv_wallet \<times> server" where
  "srv_processOrder now order ws =
     (case ws of (wallet, g) \<Rightarrow>
        (case find (\<lambda>t. st_id t = o_id order) (sw_trades wallet) of
           None \<Rightarrow>
             (let trade =
                    \<lparr> st_id = o_id order,
                      st_wallet = o_trader order,
                      st_nickname = sw_nickname wallet,
                      st_market = o_market order,
                      st_side = o_side order,
                      st_size = o_size order,
                      st_price = o_price order,
                      st_status = o_status order,
                      st_createdAt = o_createdAt order,
                      st_detectedAt = now,
                      st_testMode = True,
                      st_pnl = None \<rparr>
              in (wallet\<lparr> sw_trades := sw_trades wallet @ [trade] \<rparr>,
                  g\<lparr> srv_tradeHistory := srv_tradeHistory g @ [trade],
                     srv_stats := (srv_stats g)\<lparr>
                       totalTrades := totalTrades (srv_stats g) + 1,
                       activeTrades :=
                         (if o_status order = ''OPEN'' then activeTrades (srv_stats g) + 1
                          else activeTrades (srv_stats g)) \<rparr> \<rparr>))
         | Some existingTrade \<Rightarrow> (wallet, g)))"

definition srv_updateWalletStats :: "runtime \<Rightarrow> srv_wallet \<Rightarrow> srv_wallet" where
  "srv_updateWalletStats rt wallet =
     (let ts = sw_trades wallet;
          profitable =
            length (filter (\<lambda>t. case st_pnl t of None \<Rightarrow> False | Some p \<Rightarrow> p > 0) ts)
      in wallet\<lparr> sw_stats :=
           \<lparr> ws_trades = length ts,
             ws_profitable = profitable,
             ws_successRate =
               (if length ts > 0
                then JString (toFixed rt 1 (real profitable / real (length ts) * 100))
                else JNumber 0),
             ws_pnl =
               JString (toFixed rt 2
                 (foldl (\<lambda>sum t. sum + (case st_pnl t of None \<Rightarrow> 0 | Some p \<Rightarrow> p)) 0 ts)) \<rparr> \<rparr>)"

definition srv_pollWalletOrders :: "runtime \<Rightarrow> network \<Rightarrow> nat \<Rightarrow> string \<Rightarrow> server \<Rightarrow> server" where
  "srv_pollWalletOrders rt fetch now walletAddress g =
     (let orders = srv_getWalletOrders rt fetch walletAddress
      in case map_of (srv_copiedWallets g) (toLowerCase walletAddress) of
           None \<Rightarrow> g
         | Some wallet \<Rightarrow>
             (case foldl (\<lambda>ws order. srv_processOrder now order ws) (wallet, g) orders of
                (wallet', g') \<Rightarrow>
                  g'\<lparr> srv_copiedWallets :=
                        map_set (toLowerCase walletAddress) (srv_updateWalletStats rt wallet')
                          (srv_copiedWallets g') \<rparr>))"

definition srv_addWallet :: "runtime \<Rightarrow> network \<Rightarrow> nat \<Rightarrow> string \<Rightarrow> string \<Rightarrow> server \<Rightarrow> server" where
  "srv_addWallet rt fetch now walletAddress nick g =
     (let walletData =
            \<lparr> sw_nickname = nick, sw_address = toLowerCase walletAddress, sw_active = True,
              sw_lastChecked = now, sw_trades = [],
              sw_stats = \<lparr> ws_trades = 0, ws_profitable = 0, ws_successRate = JNumber 0,
                           ws_pnl = JNumber 0 \<rparr> \<rparr>;
          g1 = g\<lparr> srv_copiedWallets :=
                    map_set (toLowerCase walletAddress) walletData (srv_copiedWallets g) \<rparr>
      in (srv_pollWalletOrders rt fetch now walletAddress g1)\<lparr> srv_pollInterval := True \<rparr>)"

record srv_wallet_view =
  sv_nickname :: string
  sv_address :: string
  sv_active :: bool
  sv_trades :: nat
  sv_profitable :: nat
  sv_successRate :: jsvalue
  sv_pnl :: jsvalue

definition srv_walletView :: "srv_wallet \<Rightarrow> srv_wallet_view" where
  "srv_walletView wallet =
     \<lparr> sv_nickname = sw_nickname wallet,
       sv_address = sw_address wallet,
       sv_active = sw_active wallet,
       sv_trades = ws_trades (sw_stats wallet),
       sv_profitable = ws_profitable (sw_stats wallet),
       sv_successRate = ws_successRate (sw_stats wallet),
       sv_pnl = ws_pnl (sw_stats wallet) \<rparr>"

section \<open>Sample data\<close>

text \<open>A runtime, an order and two networks on which the definitions can be run.\<close>

definition sample_runtime :: runtime where
  "sample_runtime =
     \<lparr> parseFloat = (\<lambda>text. if text = ''10'' then 10 else if text = ''0.5'' then 1 / 2 else 0),
       parseDate = (\<lambda>text. 0),
       toFixed = (\<lambda>digits x. if x = 0 then (if digits = 1 then ''0.0'' else ''0.00'') else ''?'') \<rparr>"

definition sample_raw :: "string \<Rightarrow> raw_order" where
  "sample_raw status =
     \<lparr> raw_id = ''1'', raw_trader = ''0xABC'', raw_token = ''tok'', raw_price = ''0.5'',
       raw_size = ''10'', raw_side = ''BUY'', raw_status = status, raw_createdAt = ''t0'',
       raw_filled = None \<rparr>"

definition net_orders :: "raw_order list \<Rightarrow> network" where
  "net_orders orders = (\<lambda>url. Response 200 (OrderArray orders))"

definition net_down :: network where
  "net_down = (\<lambda>url. TransportError)"

text \<open>The registry after wallet \<open>0xABC\<close> was added and its first poll found one open order.\<close>

definition sample_wallet :: wallet where
  "sample_wallet =
     \<lparr> nickname = ''X'', address = ''0xabc'', active = True, lastChecked = 5, trades = [0] \<rparr>"

definition sample_state :: copytrader where
  "sample_state =
     \<lparr> copiedWallets = [(''0xabc'', sample_wallet)],
       tradeHistory = [0], isMonitoring = True, testMode = True,
       stats = \<lparr> totalTrades = 1, profitableTrades = 0, totalPnl = 0, activeTrades = 1 \<rparr>,
       heap =
         [\<lparr> t_id = ''1'', t_wallet = ''0xABC'', t_nickname = ''X'',
            t_market = ''Market: tok...'', t_side = ''BUY'', t_size = 10,
            t_price = 1 / 2, t_status = ''OPEN'', t_token = ''tok'',
            t_createdAt = 0, t_detectedAt = 5, t_testMode = True, t_pnl = 0,
            t_outcome = ''PENDING'', t_updatedAt = None \<rparr>] \<rparr>"

definition sample_srv_wallet :: srv_wallet where
  "sample_srv_wallet =
     \<lparr> sw_nickname = ''X'', sw_address = ''0xabc'', sw_active = True, sw_lastChecked = 5,
       sw_trades = [],
       sw_stats = \<lparr> ws_trades = 0, ws_profitable = 0, ws_successRate = JNumber 0,
                    ws_pnl = JNumber 0 \<rparr> \<rparr>"

text \<open>
  A run of three events from the empty registry, an order whose trader is written in
  another casing, a second order, and the sample registry with its wallet paused.
\<close>

definition sample_events :: "(network \<times> nat \<times> event) list" where
  "sample_events =
     [(net_orders [sample_raw ''OPEN''], 5, AddWallet ''0xABC'' ''X''),
      (net_orders [sample_raw ''FILLED''], 6, PollTick),
      (net_down, 7, PushMessage \<lparr> msg_type = ''order_updated'', msg_data = sample_raw ''FILLED'' \<rparr>)]"

definition sample_order :: order where
  "sample_order = parseOrder sample_runtime ((sample_raw ''OPEN'')\<lparr> raw_trader := ''0XaBc'' \<rparr>)"


definition paused_state :: copytrader where
  "paused_state = setWalletActive ''0xABC'' False sample_state"



section \<open>Facts about maps and strings\<close>

lemma map_of_map_delete_same: "map_of (map_delete k m) k = None"
  by (induction m) (auto simp: map_delete_def)

lemma map_of_map_delete_other: "k' \<noteq> k \<Longrightarrow> map_of (map_delete k m) k' = map_of m k'"
  by (induction m) (auto simp: map_delete_def)

lemma map_of_map_set: "map_of (map_set k v m) = (map_of m)(k \<mapsto> v)"
  by (induction m) (auto simp: fun_eq_iff)

lemma set_map_set: "set (map_set k v m) \<subseteq> insert (k, v) (set m)"
  by (induction m) (auto split: if_splits)

lemma map_fst_map_set: "map_of m k = Some v0 \<Longrightarrow> map fst (map_set k v m) = map fst m"
  by (induction m) (auto split: if_splits)

lemma letter_table_lower:
  "\<forall>(u, l) \<in> set letter_table. lower_char u = l \<and> lower_char l = l"
  by (simp add: letter_table_def lower_char_def upper_letters_def lower_letters_def)

lemma same_letter_lower: "same_letter c d \<Longrightarrow> lower_char c = lower_char d"
  using letter_table_lower
  unfolding same_letter_def list_ex_iff
  by fastforce

lemma same_address_lower: "same_address_any_casing a b \<Longrightarrow> toLowerCase a = toLowerCase b"
  unfolding same_address_any_casing_def toLowerCase_def
  by (induction a b rule: list_all2_induct) (auto simp: same_letter_lower)

lemma lower_0xABC: "toLowerCase ''0xABC'' = ''0xabc''"
  by (simp add: toLowerCase_def lower_char_def letter_table_def upper_letters_def
      lower_letters_def)

lemma sample_state_built:
  "addWallet sample_runtime (net_orders [sample_raw ''OPEN'']) 5 ''0xABC'' ''X'' constructor
     = (Normal, sample_state)"
  by code_simp

section \<open>Orders of unknown traders\<close>

lemma processOrder_unknown:
  "map_of (copiedWallets s) (toLowerCase (o_trader order)) = None \<Longrightarrow>
   processOrder now order s = (Normal, s)"
  by (simp add: processOrder_def)

lemma copiedWallets_removeWallet:
  "map_of (copiedWallets (removeWallet a s)) (toLowerCase a) = None"
  by (simp add: removeWallet_def map_of_map_delete_same)

text \<open>
  Claim C5. An order whose normalised trader address has no entry in the registry is
  dropped: \<open>processOrder\<close> returns normally and the whole state (registry, trade
  history, counters) is the one it was given. In particular an order, or a push
  message carrying one, that arrives for an address after \<open>removeWallet\<close> leaves the
  state without the wallet.
\<close>

theorem late_event_discarded:
  "(map_of (copiedWallets s) (toLowerCase (o_trader order)) = None \<longrightarrow>
      processOrder now order s = (Normal, s))
   \<and> (toLowerCase (o_trader order) = toLowerCase a \<longrightarrow>
        processOrder now order (removeWallet a s) = (Normal, removeWallet a s))
   \<and> (toLowerCase (raw_trader (msg_data m)) = toLowerCase a
        \<and> (msg_type m = ''order_created'' \<or> msg_type m = ''order_updated'') \<longrightarrow>
        handleWebSocketMessage rt now m (removeWallet a s) = (Normal, removeWallet a s))"
proof (intro conjI impI)
  assume "map_of (copiedWallets s) (toLowerCase (o_trader order)) = None"
  then show "processOrder now order s = (Normal, s)"
    by (rule processOrder_unknown)
next
  assume "toLowerCase (o_trader order) = toLowerCase a"
  then have "map_of (copiedWallets (removeWallet a s)) (toLowerCase (o_trader order)) = None"
    by (simp add: copiedWallets_removeWallet)
  then show "processOrder now order (removeWallet a s) = (Normal, removeWallet a s)"
    by (rule processOrder_unknown)
next
  assume h: "toLowerCase (raw_trader (msg_data m)) = toLowerCase a
        \<and> (msg_type m = ''order_created'' \<or> msg_type m = ''order_updated'')"
  then have "map_of (copiedWallets (removeWallet a s))
               (toLowerCase (o_trader (parseOrder rt (msg_data m)))) = None"
    by (simp add: copiedWallets_removeWallet parseOrder_def)
  then have "processOrder now (parseOrder rt (msg_data m)) (removeWallet a s)
               = (Normal, removeWallet a s)"
    by (rule processOrder_unknown)
  with h show "handleWebSocketMessage rt now m (removeWallet a s) = (Normal, removeWallet a s)"
    by (auto simp: handleWebSocketMessage_def)
qed

theorem late_event_discarded_witness:
  "map_of (copiedWallets constructor)
       (toLowerCase (o_trader (parseOrder sample_runtime (sample_raw ''OPEN'')))) = None
   \<and> processOrder 9 (parseOrder sample_runtime (sample_raw ''OPEN'')) constructor
       = (Normal, constructor)
   \<and> toLowerCase (raw_trader (sample_raw ''OPEN'')) = toLowerCase ''0xAbC''
   \<and> copiedWallets (removeWallet ''0xAbC'' sample_state) = []
   \<and> handleWebSocketMessage sample_runtime 9
         \<lparr> msg_type = ''order_created'', msg_data = sample_raw ''OPEN'' \<rparr>
         (removeWallet ''0xAbC'' sample_state)
       = (Normal, removeWallet ''0xAbC'' sample_state)
   \<and> processOrder 9 (parseOrder sample_runtime (sample_raw ''OPEN''))
         (removeWallet ''0xAbC'' sample_state)
       = (Normal, removeWallet ''0xAbC'' sample_state)"
proof -
  have low: "toLowerCase ''0xAbC'' = ''0xabc''"
    by (simp add: toLowerCase_def lower_char_def letter_table_def upper_letters_def
        lower_letters_def)
  have unknown: "map_of (copiedWallets constructor)
       (toLowerCase (o_trader (parseOrder sample_runtime (sample_raw ''OPEN'')))) = None"
    by (simp add: constructor_def)
  have same: "toLowerCase (raw_trader (sample_raw ''OPEN'')) = toLowerCase ''0xAbC''"
    by (simp add: sample_raw_def low lower_0xABC)
  have same': "toLowerCase (o_trader (parseOrder sample_runtime (sample_raw ''OPEN'')))
                 = toLowerCase ''0xAbC''"
    using same by (simp add: parseOrder_def)
  have gone: "copiedWallets (removeWallet ''0xAbC'' sample_state) = []"
    by (simp add: removeWallet_def map_delete_def sample_state_def low)
  note inst = late_event_discarded
    [of _ "parseOrder sample_runtime (sample_raw ''OPEN'')" 9 "''0xAbC''"
        "\<lparr> msg_type = ''order_created'', msg_data = sample_raw ''OPEN'' \<rparr>" sample_runtime]
  from inst [of constructor] unknown
  have a: "processOrder 9 (parseOrder sample_runtime (sample_raw ''OPEN'')) constructor
             = (Normal, constructor)"
    by blast
  from inst [of sample_state] same same'
  have b: "handleWebSocketMessage sample_runtime 9
         \<lparr> msg_type = ''order_created'', msg_data = sample_raw ''OPEN'' \<rparr>
         (removeWallet ''0xAbC'' sample_state)
       = (Normal, removeWallet ''0xAbC'' sample_state)"
    and c: "processOrder 9 (parseOrder sample_runtime (sample_raw ''OPEN''))
         (removeWallet ''0xAbC'' sample_state)
       = (Normal, removeWallet ''0xAbC'' sample_state)"
    by simp_all
  from unknown a same gone b c show ?thesis by blast
qed

section \<open>Failed fetches\<close>

text \<open>
  Claim C6. When the request for a wallet's orders fails in transport, or is answered
  with a status outside 200 to 299, the block of \<open>getWalletOrders\<close> throws, the
  function itself returns the empty list, which is also what it returns for a wallet
  with no orders, and the caller \<open>pollWalletOrders\<close> completes normally with the state
  unchanged.
\<close>

theorem failed_fetch_returns_empty:
  assumes "fetch (baseURL @ ''/orders?trader='' @ toLowerCase walletAddress) = TransportError
           \<or> (\<exists>status body.
                 fetch (baseURL @ ''/orders?trader='' @ toLowerCase walletAddress)
                   = Response status body \<and> \<not> response_ok status)"
  shows "(\<exists>e. getWalletOrders_try rt fetch walletAddress = Inl e)
         \<and> getWalletOrders rt fetch walletAddress = []
         \<and> getWalletOrders rt fetch walletAddress
             = getWalletOrders rt (net_orders []) walletAddress
         \<and> pollWalletOrders rt fetch now walletAddress s = (Normal, s)"
proof -
  from assms have failed: "\<exists>e. getWalletOrders_try rt fetch walletAddress = Inl e"
    by (auto simp: getWalletOrders_try_def)
  then have empty: "getWalletOrders rt fetch walletAddress = []"
    by (auto simp: getWalletOrders_def)
  have none: "getWalletOrders rt (net_orders []) walletAddress = []"
    by (simp add: getWalletOrders_def getWalletOrders_try_def net_orders_def response_ok_def
        parseOrders_def)
  from empty have "pollWalletOrders rt fetch now walletAddress s = (Normal, s)"
    by (simp add: pollWalletOrders_def)
  with failed empty none show ?thesis by simp
qed

theorem failed_fetch_returns_empty_witness:
  "\<not> response_ok 503
   \<and> getWalletOrders sample_runtime (\<lambda>url. Response 503 InvalidJson) ''0xABC'' = []
   \<and> getWalletOrders sample_runtime net_down ''0xABC'' = []
   \<and> pollWalletOrders sample_runtime (\<lambda>url. Response 503 InvalidJson) 9 ''0xABC'' sample_state
       = (Normal, sample_state)"
  using failed_fetch_returns_empty
    [of "\<lambda>url. Response 503 InvalidJson" "''0xABC''" sample_runtime 9 sample_state]
    failed_fetch_returns_empty [of net_down "''0xABC''" sample_runtime 9 sample_state]
  by (simp add: response_ok_def net_down_def)

section \<open>Removing a wallet\<close>

text \<open>
  Claim C10. \<open>removeWallet\<close> changes nothing but the map entry of the normalised
  address: the trade objects, the global trade history, the counters and the flags are
  the same, every other key maps to the record it mapped to, in the same order, and the
  counters the dashboard reports are not reduced.
\<close>

theorem removeWallet_frame:
  "heap (removeWallet a s) = heap s
   \<and> tradeHistory (removeWallet a s) = tradeHistory s
   \<and> stats (removeWallet a s) = stats s
   \<and> isMonitoring (removeWallet a s) = isMonitoring s
   \<and> testMode (removeWallet a s) = testMode s
   \<and> map_of (copiedWallets (removeWallet a s)) (toLowerCase a) = None
   \<and> (\<forall>k. k \<noteq> toLowerCase a \<longrightarrow>
         map_of (copiedWallets (removeWallet a s)) k = map_of (copiedWallets s) k)
   \<and> copiedWallets (removeWallet a s)
       = filter (\<lambda>(k, w). k \<noteq> toLowerCase a) (copiedWallets s)
   \<and> d_stats (getDashboardData rt now (removeWallet a s)) = d_stats (getDashboardData rt now s)"
proof -
  have frame: "heap (removeWallet a s) = heap s
      \<and> tradeHistory (removeWallet a s) = tradeHistory s
      \<and> stats (removeWallet a s) = stats s
      \<and> isMonitoring (removeWallet a s) = isMonitoring s
      \<and> testMode (removeWallet a s) = testMode s"
    by (simp add: removeWallet_def)
  have gone: "map_of (copiedWallets (removeWallet a s)) (toLowerCase a) = None"
    by (simp add: removeWallet_def map_of_map_delete_same)
  have others: "\<forall>k. k \<noteq> toLowerCase a \<longrightarrow>
         map_of (copiedWallets (removeWallet a s)) k = map_of (copiedWallets s) k"
    by (simp add: removeWallet_def map_of_map_delete_other)
  have entries: "copiedWallets (removeWallet a s)
       = filter (\<lambda>(k, w). k \<noteq> toLowerCase a) (copiedWallets s)"
    by (simp add: removeWallet_def map_delete_def)
  have totals: "d_stats (getDashboardData rt now (removeWallet a s))
       = d_stats (getDashboardData rt now s)"
    by (simp add: removeWallet_def getDashboardData_def)
  from frame gone others entries totals show ?thesis by blast
qed

theorem removeWallet_frame_witness:
  "map_of (copiedWallets sample_state) ''0xabc'' \<noteq> None
   \<and> copiedWallets (removeWallet ''0xABC'' sample_state) = []
   \<and> tradeHistory (removeWallet ''0xABC'' sample_state) = [0]
   \<and> totalTrades (d_stats (getDashboardData sample_runtime 9 (removeWallet ''0xABC'' sample_state))) = 1
   \<and> ''0xabc'' \<noteq> toLowerCase ''0xdef''
   \<and> map_of (copiedWallets (removeWallet ''0xdef'' sample_state)) ''0xabc''
       = map_of (copiedWallets sample_state) ''0xabc''"
proof -
  have ne: "''0xabc'' \<noteq> toLowerCase ''0xdef''"
    by (simp add: toLowerCase_def lower_char_def letter_table_def upper_letters_def
        lower_letters_def)
  have other: "map_of (copiedWallets (removeWallet ''0xdef'' sample_state)) ''0xabc''
       = map_of (copiedWallets sample_state) ''0xabc''"
    using removeWallet_frame [of "''0xdef''" sample_state sample_runtime 9] ne by blast
  have gone: "copiedWallets (removeWallet ''0xABC'' sample_state) = []"
    using removeWallet_frame [of "''0xABC''" sample_state sample_runtime 9]
    by (simp add: lower_0xABC sample_state_def)
  have kept: "tradeHistory (removeWallet ''0xABC'' sample_state) = [0]
      \<and> totalTrades (d_stats (getDashboardData sample_runtime 9
            (removeWallet ''0xABC'' sample_state))) = 1"
    using removeWallet_frame [of "''0xABC''" sample_state sample_runtime 9]
    by (simp add: sample_state_def getDashboardData_def)
  show ?thesis using ne other gone kept by (simp add: sample_state_def)
qed

section \<open>Success rate\<close>

text \<open>
  Claim C4. For a wallet with no trades the dashboard's success rate is the number 0,
  in the class (\<open>getDashboardData\<close>) and in the server (\<open>updateWalletStats\<close>). The
  quotient profitable/total is formed only in the other branch, where the number of
  trades is positive: whenever the rate is the string of a quotient, the wallet has
  trades.
\<close>

theorem empty_wallet_success_rate_zero:
  "(trades w = [] \<longrightarrow> v_successRate (walletView rt s w) = JNumber 0)
   \<and> ((k, w) \<in> set (copiedWallets s) \<longrightarrow>
        walletView rt s w \<in> set (d_wallets (getDashboardData rt now s)))
   \<and> (\<forall>x. v_successRate (walletView rt s w) = JString x \<longrightarrow> 0 < v_trades (walletView rt s w))
   \<and> (sw_trades sw = [] \<longrightarrow>
        ws_successRate (sw_stats (srv_updateWalletStats rt sw)) = JNumber 0
        \<and> sv_successRate (srv_walletView (srv_updateWalletStats rt sw)) = JNumber 0)"
proof (intro conjI impI allI)
  assume "trades w = []"
  then show "v_successRate (walletView rt s w) = JNumber 0"
    by (simp add: walletView_def wallet_trades_def)
next
  assume "(k, w) \<in> set (copiedWallets s)"
  then show "walletView rt s w \<in> set (d_wallets (getDashboardData rt now s))"
    by (force simp: getDashboardData_def)
next
  fix x assume "v_successRate (walletView rt s w) = JString x"
  then show "0 < v_trades (walletView rt s w)"
    by (simp add: walletView_def Let_def split: if_splits)
next
  assume "sw_trades sw = []"
  then show "ws_successRate (sw_stats (srv_updateWalletStats rt sw)) = JNumber 0"
    by (simp add: srv_updateWalletStats_def)
next
  assume "sw_trades sw = []"
  then show "sv_successRate (srv_walletView (srv_updateWalletStats rt sw)) = JNumber 0"
    by (simp add: srv_updateWalletStats_def srv_walletView_def)
qed

theorem empty_wallet_success_rate_zero_witness:
  "trades (sample_wallet\<lparr> trades := [] \<rparr>) = []
   \<and> v_successRate (walletView sample_runtime sample_state (sample_wallet\<lparr> trades := [] \<rparr>))
       = JNumber 0
   \<and> (''0xabc'', sample_wallet) \<in> set (copiedWallets sample_state)
   \<and> walletView sample_runtime sample_state sample_wallet
       \<in> set (d_wallets (getDashboardData sample_runtime 9 sample_state))
   \<and> v_successRate (walletView sample_runtime sample_state sample_wallet) = JString ''0.0''
   \<and> 0 < v_trades (walletView sample_runtime sample_state sample_wallet)
   \<and> sw_trades sample_srv_wallet = []
   \<and> sv_successRate (srv_walletView (srv_updateWalletStats sample_runtime sample_srv_wallet))
       = JNumber 0"
proof -
  have rate: "v_successRate (walletView sample_runtime sample_state sample_wallet)
                = JString ''0.0''"
    by (simp add: walletView_def wallet_trades_def sample_wallet_def sample_state_def
        sample_runtime_def)
  have member: "(''0xabc'', sample_wallet) \<in> set (copiedWallets sample_state)"
    by (simp add: sample_state_def)
  have none: "sw_trades sample_srv_wallet = []"
    by (simp add: sample_srv_wallet_def)
  from empty_wallet_success_rate_zero
    [of "sample_wallet\<lparr> trades := [] \<rparr>" sample_runtime sample_state "''0xabc''" 9
        sample_srv_wallet]
  have empty: "v_successRate (walletView sample_runtime sample_state
                 (sample_wallet\<lparr> trades := [] \<rparr>)) = JNumber 0"
    and srv: "sv_successRate (srv_walletView (srv_updateWalletStats sample_runtime
                 sample_srv_wallet)) = JNumber 0"
    using none by simp_all
  from empty_wallet_success_rate_zero
    [of sample_wallet sample_runtime sample_state "''0xabc''" 9 sample_srv_wallet]
  have shown: "walletView sample_runtime sample_state sample_wallet
                 \<in> set (d_wallets (getDashboardData sample_runtime 9 sample_state))"
    and positive: "0 < v_trades (walletView sample_runtime sample_state sample_wallet)"
    using member rate by blast+
  from rate member none empty srv shown positive show ?thesis by simp
qed

section \<open>What processOrder does\<close>

lemma distinct_map_set: "distinct (map fst m) \<Longrightarrow> distinct (map fst (map_set k v m))"
proof (induction m)
  case Nil
  then show ?case by simp
next
  case (Cons p m)
  have "fst ` set (map_set k v m) \<subseteq> insert k (fst ` set m)"
    using set_map_set [of k v m] by force
  with Cons show ?case by (cases p) auto
qed

lemma distinct_map_delete: "distinct (map fst m) \<Longrightarrow> distinct (map fst (map_delete k m))"
  by (simp add: map_delete_def distinct_map_filter)

lemma set_map_delete: "set (map_delete k m) \<subseteq> set m"
  by (auto simp: map_delete_def)

lemma processOrder_existing:
  "map_of (copiedWallets s) (toLowerCase (o_trader order)) = Some w \<Longrightarrow>
   find (has_id (heap s) (o_id order)) (trades w) = Some r \<Longrightarrow>
   processOrder now order s = (Throw (TypeError ''this.updateTrade is not a function''), s)"
  by (simp add: processOrder_def)

lemma processOrder_new:
  assumes "map_of (copiedWallets s) (toLowerCase (o_trader order)) = Some w"
    and "find (has_id (heap s) (o_id order)) (trades w) = None"
  shows "fst (processOrder now order s)
           = (if testMode s then Normal
              else Throw (TypeError ''this.executeCopyTrade is not a function''))"
    and "heap (snd (processOrder now order s)) = heap s @ [createTradeRecord now order s]"
    and "copiedWallets (snd (processOrder now order s))
           = map_set (toLowerCase (o_trader order))
               (w\<lparr> trades := trades w @ [length (heap s)] \<rparr>) (copiedWallets s)"
    and "tradeHistory (snd (processOrder now order s)) = tradeHistory s @ [length (heap s)]"
    and "stats (snd (processOrder now order s))
           = (stats s)\<lparr> totalTrades := totalTrades (stats s) + 1,
                        activeTrades := (if o_status order = ''OPEN''
                                         then activeTrades (stats s) + 1
                                         else activeTrades (stats s)) \<rparr>"
    and "isMonitoring (snd (processOrder now order s)) = isMonitoring s"
    and "testMode (snd (processOrder now order s)) = testMode s"
  using assms by (simp_all add: processOrder_def Let_def)

lemma processOrder_cases:
  obtains (unknown) "map_of (copiedWallets s) (toLowerCase (o_trader order)) = None"
      "processOrder now order s = (Normal, s)"
  | (existing) w r where "map_of (copiedWallets s) (toLowerCase (o_trader order)) = Some w"
      "find (has_id (heap s) (o_id order)) (trades w) = Some r"
      "processOrder now order s = (Throw (TypeError ''this.updateTrade is not a function''), s)"
  | (new) w where "map_of (copiedWallets s) (toLowerCase (o_trader order)) = Some w"
      "find (has_id (heap s) (o_id order)) (trades w) = None"
proof (cases "map_of (copiedWallets s) (toLowerCase (o_trader order))")
  case None
  then show ?thesis using unknown processOrder_unknown by blast
next
  case (Some w)
  then show ?thesis
    using existing new processOrder_existing
    by (cases "find (has_id (heap s) (o_id order)) (trades w)") blast+
qed

lemma t_id_createTradeRecord: "t_id (createTradeRecord now order s) = o_id order"
  by (simp add: createTradeRecord_def)

lemma trade_ids_append:
  "\<forall>r \<in> set rs. r < length h \<Longrightarrow> trade_ids (h @ ts) rs = trade_ids h rs"
  by (simp add: trade_ids_def nth_append)

lemma trade_ids_snoc: "trade_ids h (rs @ [r]) = trade_ids h rs @ [t_id (h ! r)]"
  by (simp add: trade_ids_def)

lemma registry_ok_processOrder:
  assumes ok: "registry_ok s"
  shows "registry_ok (snd (processOrder now order s))"
proof (cases rule: processOrder_cases [of s order now])
  case unknown
  with ok show ?thesis by simp
next
  case (existing w r)
  with ok show ?thesis by simp
next
  case (new w)
  let ?s' = "snd (processOrder now order s)"
  let ?key = "toLowerCase (o_trader order)"
  let ?w' = "w\<lparr> trades := trades w @ [length (heap s)] \<rparr>"
  note eqs = processOrder_new [OF new, of now]
  from new(1) have w_in: "(?key, w) \<in> set (copiedWallets s)"
    by (rule map_of_SomeD)
  from ok have kd: "keys_distinct s" and rv: "refs_valid s" and iu: "ids_unique s"
    by (simp_all add: registry_ok_def)
  have entries: "\<And>k x. (k, x) \<in> set (copiedWallets ?s') \<Longrightarrow>
                   (k, x) \<in> set (copiedWallets s) \<or> x = ?w'"
    using set_map_set [of ?key ?w' "copiedWallets s"] eqs(3) by auto
  have w_refs: "\<forall>r \<in> set (trades w). r < length (heap s)"
    using rv w_in by (auto simp: refs_valid_def)
  have w_ids: "distinct (trade_ids (heap s) (trades w))"
    using iu w_in by (auto simp: ids_unique_def)
  have fresh: "o_id order \<notin> set (trade_ids (heap s) (trades w))"
    using new(2) w_refs by (auto simp: find_None_iff has_id_def trade_ids_def)
  have kd': "keys_distinct ?s'"
    using kd new(1) by (simp add: keys_distinct_def eqs(3) map_fst_map_set)
  have rv': "refs_valid ?s'"
    unfolding refs_valid_def
  proof (intro ballI, clarify)
    fix k x r assume kx: "(k, x) \<in> set (copiedWallets ?s')" and r: "r \<in> set (trades x)"
    from entries [OF kx] show "r < length (heap ?s')"
    proof
      assume "(k, x) \<in> set (copiedWallets s)"
      with rv r have "r < length (heap s)" by (auto simp: refs_valid_def)
      then show ?thesis by (simp add: eqs(2))
    next
      assume "x = ?w'"
      with r w_refs show ?thesis by (auto simp: eqs(2) less_Suc_eq)
    qed
  qed
  have iu': "ids_unique ?s'"
    unfolding ids_unique_def
  proof (intro ballI, clarify)
    fix k x assume kx: "(k, x) \<in> set (copiedWallets ?s')"
    from entries [OF kx] show "distinct (trade_ids (heap ?s') (trades x))"
    proof
      assume old: "(k, x) \<in> set (copiedWallets s)"
      with rv have "\<forall>r \<in> set (trades x). r < length (heap s)"
        by (auto simp: refs_valid_def)
      then have "trade_ids (heap ?s') (trades x) = trade_ids (heap s) (trades x)"
        unfolding eqs(2) by (rule trade_ids_append)
      moreover from iu old have "distinct (trade_ids (heap s) (trades x))"
        by (auto simp: ids_unique_def)
      ultimately show ?thesis by simp
    next
      assume x: "x = ?w'"
      have "trade_ids (heap ?s') (trades w) = trade_ids (heap s) (trades w)"
        unfolding eqs(2) using w_refs by (rule trade_ids_append)
      then have "trade_ids (heap ?s') (trades ?w') = trade_ids (heap s) (trades w) @ [o_id order]"
        by (simp add: trade_ids_snoc eqs(2) t_id_createTradeRecord)
      with w_ids fresh x show ?thesis by simp
    qed
  qed
  from kd' rv' iu' show ?thesis by (simp add: registry_ok_def)
qed

lemma registry_ok_forEach:
  "registry_ok s \<Longrightarrow> registry_ok (snd (forEach_processOrder now orders s))"
proof (induction orders arbitrary: s)
  case Nil
  then show ?case by simp
next
  case (Cons order orders)
  from Cons.prems have step: "registry_ok (snd (processOrder now order s))"
    by (rule registry_ok_processOrder)
  show ?case
  proof (cases "processOrder now order s")
    case (Pair c s')
    with step Cons.IH [of s'] show ?thesis
      by (cases c) simp_all
  qed
qed

lemma registry_ok_pollWalletOrders:
  "registry_ok s \<Longrightarrow> registry_ok (snd (pollWalletOrders rt fetch now a s))"
  by (simp add: pollWalletOrders_def registry_ok_forEach)

lemma registry_ok_pollEach:
  "registry_ok s \<Longrightarrow> registry_ok (snd (pollEach rt fetch now targets s))"
proof (induction targets arbitrary: s)
  case Nil
  then show ?case by simp
next
  case (Cons a targets)
  from Cons.prems have step: "registry_ok (snd (pollWalletOrders rt fetch now a s))"
    by (rule registry_ok_pollWalletOrders)
  show ?case
  proof (cases "pollWalletOrders rt fetch now a s")
    case (Pair c s')
    with step Cons.IH [of s'] show ?thesis
      by (cases c) simp_all
  qed
qed

section \<open>Well-formed registries stay well-formed\<close>

lemma updateOrderStatus_loop_effect:
  "\<exists>h. length h = length (heap s)
        \<and> (\<forall>r. t_id (h ! r) = t_id (heap s ! r))
        \<and> heap (snd (updateOrderStatus_loop now orderId status entries s)) = h
        \<and> copiedWallets (snd (updateOrderStatus_loop now orderId status entries s))
            = copiedWallets s
        \<and> tradeHistory (snd (updateOrderStatus_loop now orderId status entries s))
            = tradeHistory s"
proof (induction entries)
  case Nil
  then show ?case by simp
next
  case (Cons p entries)
  obtain k w where p: "p = (k, w)" by (cases p)
  show ?case
  proof (cases "find (has_id (heap s) orderId) (trades w)")
    case None
    with Cons p show ?thesis by simp
  next
    case (Some r)
    have "t_id ((heap s)[r := (heap s ! r)\<lparr> t_status := status, t_updatedAt := Some now \<rparr>] ! r')
            = t_id (heap s ! r')" for r'
      by (cases "r < length (heap s)") (simp_all add: nth_list_update list_update_beyond)
    with Some p show ?thesis by simp
  qed
qed

lemma trade_ids_cong:
  "\<forall>r. t_id (h' ! r) = t_id (h ! r) \<Longrightarrow> trade_ids h' rs = trade_ids h rs"
  by (simp add: trade_ids_def)

lemma registry_ok_heap_update:
  assumes "registry_ok s" and "copiedWallets s' = copiedWallets s"
    and "length (heap s') = length (heap s)"
    and "\<forall>r. t_id (heap s' ! r) = t_id (heap s ! r)"
  shows "registry_ok s'"
proof -
  from assms(4) have "trade_ids (heap s') rs = trade_ids (heap s) rs" for rs
    by (rule trade_ids_cong)
  with assms(1-3) show ?thesis
    by (simp add: registry_ok_def keys_distinct_def refs_valid_def ids_unique_def)
qed

lemma registry_ok_updateOrderStatus:
  "registry_ok s \<Longrightarrow> registry_ok (snd (updateOrderStatus now orderId status s))"
  unfolding updateOrderStatus_def
  using updateOrderStatus_loop_effect [of s now orderId status "copiedWallets s"]
  by (auto intro: registry_ok_heap_update)

lemma registry_ok_handleWebSocketMessage:
  "registry_ok s \<Longrightarrow> registry_ok (snd (handleWebSocketMessage rt now data s))"
  by (simp add: handleWebSocketMessage_def registry_ok_processOrder
      registry_ok_updateOrderStatus)

lemma registry_ok_entries:
  assumes "registry_ok s" and "heap s' = heap s"
    and "distinct (map fst (copiedWallets s'))"
    and "\<And>k w. (k, w) \<in> set (copiedWallets s') \<Longrightarrow>
           (\<forall>r \<in> set (trades w). r < length (heap s))
           \<and> distinct (trade_ids (heap s) (trades w))"
  shows "registry_ok s'"
  unfolding registry_ok_def keys_distinct_def refs_valid_def ids_unique_def
  using assms(2-4) by auto

lemma registry_ok_entry:
  "registry_ok s \<Longrightarrow> (k, w) \<in> set (copiedWallets s) \<Longrightarrow>
   (\<forall>r \<in> set (trades w). r < length (heap s)) \<and> distinct (trade_ids (heap s) (trades w))"
  unfolding registry_ok_def refs_valid_def ids_unique_def by auto

lemma registry_ok_removeWallet:
  assumes "registry_ok s"
  shows "registry_ok (removeWallet a s)"
proof (rule registry_ok_entries [OF assms])
  show "heap (removeWallet a s) = heap s" by (simp add: removeWallet_def)
  from assms show "distinct (map fst (copiedWallets (removeWallet a s)))"
    by (simp add: removeWallet_def registry_ok_def keys_distinct_def distinct_map_delete)
  fix k w assume "(k, w) \<in> set (copiedWallets (removeWallet a s))"
  then have "(k, w) \<in> set (copiedWallets s)"
    using set_map_delete [of "toLowerCase a" "copiedWallets s"]
    by (auto simp: removeWallet_def)
  with assms show "(\<forall>r \<in> set (trades w). r < length (heap s))
           \<and> distinct (trade_ids (heap s) (trades w))"
    by (rule registry_ok_entry)
qed

lemma registry_ok_map_set:
  assumes ok: "registry_ok s"
    and w: "(\<forall>r \<in> set (trades w). r < length (heap s))
            \<and> distinct (trade_ids (heap s) (trades w))"
  shows "registry_ok (s\<lparr> copiedWallets := map_set k w (copiedWallets s) \<rparr>)"
proof (rule registry_ok_entries [OF ok])
  show "heap (s\<lparr> copiedWallets := map_set k w (copiedWallets s) \<rparr>) = heap s" by simp
  from ok show "distinct (map fst (copiedWallets
                  (s\<lparr> copiedWallets := map_set k w (copiedWallets s) \<rparr>)))"
    by (simp add: registry_ok_def keys_distinct_def distinct_map_set)
  fix k' w' assume "(k', w') \<in> set (copiedWallets
                      (s\<lparr> copiedWallets := map_set k w (copiedWallets s) \<rparr>))"
  then have "(k', w') \<in> set (copiedWallets s) \<or> w' = w"
    using set_map_set [of k w "copiedWallets s"] by auto
  then show "(\<forall>r \<in> set (trades w'). r < length (heap s))
           \<and> distinct (trade_ids (heap s) (trades w'))"
    using registry_ok_entry [OF ok] w by blast
qed

lemma registry_ok_setWalletActive: "registry_ok s \<Longrightarrow> registry_ok (setWalletActive a flag s)"
proof (cases "map_of (copiedWallets s) (toLowerCase a)")
  case None
  assume "registry_ok s"
  with None show ?thesis by (simp add: setWalletActive_def)
next
  case (Some w)
  assume ok: "registry_ok s"
  from Some have "(toLowerCase a, w) \<in> set (copiedWallets s)" by (rule map_of_SomeD)
  with ok have "(\<forall>r \<in> set (trades (w\<lparr> active := flag \<rparr>)). r < length (heap s))
    \<and> distinct (trade_ids (heap s) (trades (w\<lparr> active := flag \<rparr>)))"
    using registry_ok_entry by fastforce
  with ok Some show ?thesis
    by (simp add: setWalletActive_def registry_ok_map_set)
qed

lemma registry_ok_isMonitoring: "registry_ok (s\<lparr> isMonitoring := b \<rparr>) = registry_ok s"
  by (simp add: registry_ok_def keys_distinct_def refs_valid_def ids_unique_def)

lemma registry_ok_addWallet:
  assumes "registry_ok s"
  shows "registry_ok (snd (addWallet rt fetch now a nick s))"
proof -
  let ?fresh = "\<lparr> nickname = nick, address = toLowerCase a, active = True,
                   lastChecked = now, trades = [] \<rparr>"
  let ?s1 = "s\<lparr> copiedWallets := map_set (toLowerCase a) ?fresh (copiedWallets s) \<rparr>"
  have "registry_ok ?s1"
    using assms by (rule registry_ok_map_set) (simp add: trade_ids_def)
  then have polled: "registry_ok (snd (pollWalletOrders rt fetch now a ?s1))"
    by (rule registry_ok_pollWalletOrders)
  show ?thesis
  proof (cases "pollWalletOrders rt fetch now a ?s1")
    case (Pair c s2)
    with polled show ?thesis
      by (cases c) (simp_all add: addWallet_def startMonitoring_def registry_ok_isMonitoring)
  qed
qed

lemma registry_ok_apply_event:
  "registry_ok s \<Longrightarrow> registry_ok (snd (apply_event rt fetch now ev s))"
  by (cases ev)
    (simp_all add: registry_ok_addWallet registry_ok_removeWallet registry_ok_setWalletActive
      registry_ok_handleWebSocketMessage pollingSweep_def registry_ok_pollEach)

lemma registry_ok_run: "registry_ok s \<Longrightarrow> registry_ok (run rt evs s)"
proof (induction evs arbitrary: s)
  case Nil
  then show ?case by simp
next
  case (Cons e evs)
  obtain fetch now ev where e: "e = (fetch, now, ev)" by (cases e)
  from Cons.prems have "registry_ok (snd (apply_event rt fetch now ev s))"
    by (rule registry_ok_apply_event)
  with Cons.IH e show ?case by simp
qed

lemma registry_ok_constructor: "registry_ok constructor"
  by (simp add: registry_ok_def keys_distinct_def refs_valid_def ids_unique_def constructor_def)

lemma count_le_one:
  "distinct (map f xs) \<Longrightarrow> length (filter (\<lambda>x. f x = v) xs) \<le> 1"
proof (induction xs)
  case Nil
  then show ?case by simp
next
  case (Cons x xs)
  show ?case
  proof (cases "f x = v")
    case True
    from Cons.prems have "f x \<notin> f ` set xs" by simp
    with True have "\<forall>y \<in> set xs. f y \<noteq> v" by blast
    then have "filter (\<lambda>x. f x = v) xs = []" by (simp add: filter_empty_conv)
    with True show ?thesis by simp
  next
    case False
    with Cons show ?thesis by simp
  qed
qed

lemma trade_count_le_one:
  assumes "registry_ok s" and "(k, w) \<in> set (copiedWallets s)"
  shows "trade_count s w orderId \<le> 1"
proof -
  from assms have valid: "\<forall>r \<in> set (trades w). r < length (heap s)"
    and uniq: "distinct (map (\<lambda>r. t_id (heap s ! r)) (trades w))"
    by (auto simp: registry_ok_def refs_valid_def ids_unique_def trade_ids_def)
  from valid have "filter (has_id (heap s) orderId) (trades w)
                     = filter (\<lambda>r. t_id (heap s ! r) = orderId) (trades w)"
    by (auto simp: has_id_def intro: filter_cong)
  with count_le_one [OF uniq, of orderId] show ?thesis
    by (simp add: trade_count_def)
qed

section \<open>Registries only grow under polling\<close>

lemma grows_to_refl: "grows_to s s"
  unfolding grows_to_def
proof (intro conjI allI impI)
  fix k w assume "map_of (copiedWallets s) k = Some w"
  then have "map_of (copiedWallets s) k = Some (w\<lparr> trades := trades w @ [] \<rparr>)
             \<and> (\<forall>r \<in> set []. length (heap s) \<le> r)"
    by simp
  then show "\<exists>extra. map_of (copiedWallets s) k = Some (w\<lparr> trades := trades w @ extra \<rparr>)
                     \<and> (\<forall>r \<in> set extra. length (heap s) \<le> r)"
    by blast
qed simp_all

lemma grows_to_trans:
  assumes a: "grows_to s s1" and b: "grows_to s1 s2"
  shows "grows_to s s2"
  unfolding grows_to_def
proof (intro conjI allI impI)
  from a b show "\<exists>ts. heap s2 = heap s @ ts" by (auto simp: grows_to_def)
  from a b show "\<exists>rs. tradeHistory s2 = tradeHistory s @ rs" by (auto simp: grows_to_def)
  from a b show "map fst (copiedWallets s2) = map fst (copiedWallets s)"
    by (simp add: grows_to_def)
next
  fix k w assume kw: "map_of (copiedWallets s) k = Some w"
  from a kw obtain e1 where
    e1: "map_of (copiedWallets s1) k = Some (w\<lparr> trades := trades w @ e1 \<rparr>)"
      "\<forall>r \<in> set e1. length (heap s) \<le> r"
    unfolding grows_to_def by blast
  from b e1(1) obtain e2 where
    e2: "map_of (copiedWallets s2) k
           = Some (w\<lparr> trades := trades w @ e1 \<rparr>\<lparr> trades := trades (w\<lparr> trades := trades w @ e1 \<rparr>) @ e2 \<rparr>)"
      "\<forall>r \<in> set e2. length (heap s1) \<le> r"
    unfolding grows_to_def by blast
  from a have "length (heap s) \<le> length (heap s1)" by (auto simp: grows_to_def)
  with e1(2) e2(2) have "\<forall>r \<in> set (e1 @ e2). length (heap s) \<le> r" by auto
  moreover from e2(1) have "map_of (copiedWallets s2) k
           = Some (w\<lparr> trades := trades w @ (e1 @ e2) \<rparr>)" by simp
  ultimately show "\<exists>extra. map_of (copiedWallets s2) k = Some (w\<lparr> trades := trades w @ extra \<rparr>)
                     \<and> (\<forall>r \<in> set extra. length (heap s) \<le> r)"
    by blast
qed

lemma grows_to_processOrder: "grows_to s (snd (processOrder now order s))"
proof (cases rule: processOrder_cases [of s order now])
  case unknown
  then show ?thesis by (simp add: grows_to_refl)
next
  case (existing w r)
  then show ?thesis by (simp add: grows_to_refl)
next
  case (new w)
  let ?s' = "snd (processOrder now order s)"
  let ?key = "toLowerCase (o_trader order)"
  note eqs = processOrder_new [OF new, of now]
  show ?thesis
    unfolding grows_to_def
  proof (intro conjI allI impI)
    show "\<exists>ts. heap ?s' = heap s @ ts" by (simp add: eqs(2))
    show "\<exists>rs. tradeHistory ?s' = tradeHistory s @ rs" by (simp add: eqs(4))
    show "map fst (copiedWallets ?s') = map fst (copiedWallets s)"
      using new(1) by (simp add: eqs(3) map_fst_map_set)
  next
    fix k x assume kx: "map_of (copiedWallets s) k = Some x"
    show "\<exists>extra. map_of (copiedWallets ?s') k = Some (x\<lparr> trades := trades x @ extra \<rparr>)
                     \<and> (\<forall>r \<in> set extra. length (heap s) \<le> r)"
    proof (cases "k = ?key")
      case True
      with kx new(1) have "x = w" by simp
      with True have "map_of (copiedWallets ?s') k
                        = Some (x\<lparr> trades := trades x @ [length (heap s)] \<rparr>)
                      \<and> (\<forall>r \<in> set [length (heap s)]. length (heap s) \<le> r)"
        by (simp add: eqs(3) map_of_map_set)
      then show ?thesis by blast
    next
      case False
      with kx have "map_of (copiedWallets ?s') k = Some (x\<lparr> trades := trades x @ [] \<rparr>)
                      \<and> (\<forall>r \<in> set []. length (heap s) \<le> r)"
        by (simp add: eqs(3) map_of_map_set)
      then show ?thesis by blast
    qed
  qed
qed

lemma grows_to_forEach: "grows_to s (snd (forEach_processOrder now orders s))"
proof (induction orders arbitrary: s)
  case Nil
  then show ?case by (simp add: grows_to_refl)
next
  case (Cons order orders)
  have step: "grows_to s (snd (processOrder now order s))"
    by (rule grows_to_processOrder)
  show ?case
  proof (cases "processOrder now order s")
    case (Pair c s')
    with step Cons.IH [of s'] show ?thesis
      by (cases c) (auto intro: grows_to_trans)
  qed
qed

lemma grows_to_pollWalletOrders: "grows_to s (snd (pollWalletOrders rt fetch now a s))"
  by (simp add: pollWalletOrders_def grows_to_forEach)

section \<open>Repeated deliveries of one order\<close>

lemma find_SomeD: "find P xs = Some x \<Longrightarrow> x \<in> set xs \<and> P x"
  by (induction xs) (auto split: if_splits)

lemma processOrder_count_one:
  assumes ok: "registry_ok s"
    and reg: "map_of (copiedWallets s) (toLowerCase (o_trader order)) = Some w"
  shows "\<exists>w'. map_of (copiedWallets (snd (processOrder now order s)))
                 (toLowerCase (o_trader order)) = Some w'
              \<and> trade_count (snd (processOrder now order s)) w' (o_id order) = 1"
proof (cases rule: processOrder_cases [of s order now])
  case unknown
  with reg show ?thesis by simp
next
  case (existing w0 r)
  with reg have w0: "w0 = w" by simp
  from existing(2) have "r \<in> set (trades w) \<and> has_id (heap s) (o_id order) r"
    unfolding w0 by (rule find_SomeD)
  then have "filter (has_id (heap s) (o_id order)) (trades w) \<noteq> []"
    by (auto simp: filter_empty_conv)
  then have "1 \<le> trade_count s w (o_id order)"
    by (simp add: trade_count_def Suc_le_eq)
  moreover from reg have "(toLowerCase (o_trader order), w) \<in> set (copiedWallets s)"
    by (rule map_of_SomeD)
  with ok have "trade_count s w (o_id order) \<le> 1" by (rule trade_count_le_one)
  ultimately have "trade_count s w (o_id order) = 1" by simp
  with existing(3) reg show ?thesis by simp
next
  case (new w0)
  with reg have w0: "w0 = w" by simp
  let ?s' = "snd (processOrder now order s)"
  let ?w' = "w\<lparr> trades := trades w @ [length (heap s)] \<rparr>"
  note eqs = processOrder_new [OF new, of now]
  from reg have "(toLowerCase (o_trader order), w) \<in> set (copiedWallets s)"
    by (rule map_of_SomeD)
  with ok have valid: "\<forall>r \<in> set (trades w). r < length (heap s)"
    using registry_ok_entry by blast
  from new(2) have none: "\<forall>r \<in> set (trades w). \<not> has_id (heap s) (o_id order) r"
    unfolding w0 by (simp add: find_None_iff)
  have "\<forall>r \<in> set (trades w). \<not> has_id (heap ?s') (o_id order) r"
    using valid none by (auto simp: eqs(2) has_id_def nth_append)
  then have "filter (has_id (heap ?s') (o_id order)) (trades w) = []"
    by (simp add: filter_empty_conv)
  moreover have "has_id (heap ?s') (o_id order) (length (heap s))"
    by (simp add: eqs(2) has_id_def t_id_createTradeRecord)
  ultimately have "trade_count ?s' ?w' (o_id order) = 1"
    by (simp add: trade_count_def)
  moreover have "map_of (copiedWallets ?s') (toLowerCase (o_trader order)) = Some ?w'"
    by (simp add: eqs(3) w0 map_of_map_set)
  ultimately show ?thesis by blast
qed

lemma grows_to_registered:
  "grows_to s s' \<Longrightarrow> map_of (copiedWallets s) k \<noteq> None \<Longrightarrow> map_of (copiedWallets s') k \<noteq> None"
  unfolding grows_to_def by fastforce

lemma getWalletOrders_ok:
  "fetch (baseURL @ ''/orders?trader='' @ toLowerCase a) = Response 200 (OrderArray raws) \<Longrightarrow>
   getWalletOrders rt fetch a = parseOrders rt raws"
  by (simp add: getWalletOrders_def getWalletOrders_try_def response_ok_def)

lemma srv_processOrder_distinct:
  "distinct (map st_id (sw_trades sw)) \<Longrightarrow>
   distinct (map st_id (sw_trades (fst (srv_processOrder now order (sw, g)))))"
proof (cases "find (\<lambda>t. st_id t = o_id order) (sw_trades sw)")
  case None
  assume "distinct (map st_id (sw_trades sw))"
  moreover from None have "o_id order \<notin> st_id ` set (sw_trades sw)"
    by (auto simp: find_None_iff)
  ultimately show ?thesis using None by (simp add: srv_processOrder_def Let_def)
next
  case (Some t)
  assume "distinct (map st_id (sw_trades sw))"
  with Some show ?thesis by (simp add: srv_processOrder_def)
qed

lemma srv_processOrder_count_one:
  assumes "distinct (map st_id (sw_trades sw))"
  shows "length (filter (\<lambda>t. st_id t = o_id order)
           (sw_trades (fst (srv_processOrder now order (sw, g))))) = 1"
proof (cases "find (\<lambda>t. st_id t = o_id order) (sw_trades sw)")
  case None
  then have "filter (\<lambda>t. st_id t = o_id order) (sw_trades sw) = []"
    by (simp add: find_None_iff filter_empty_conv)
  with None show ?thesis by (simp add: srv_processOrder_def Let_def)
next
  case (Some t)
  then have "t \<in> set (sw_trades sw) \<and> st_id t = o_id order" by (rule find_SomeD)
  then have "filter (\<lambda>t. st_id t = o_id order) (sw_trades sw) \<noteq> []"
    by (auto simp: filter_empty_conv)
  then have "1 \<le> length (filter (\<lambda>t. st_id t = o_id order) (sw_trades sw))"
    by (simp add: Suc_le_eq)
  with count_le_one [OF assms, of "o_id order"] Some show ?thesis
    by (simp add: srv_processOrder_def)
qed


section \<open>Registration and lookup\<close>

lemma addWallet_fields:
  "copiedWallets (snd (addWallet rt fetch now a nick s))
     = copiedWallets (snd (pollWalletOrders rt fetch now a
         (s\<lparr> copiedWallets := map_set (toLowerCase a)
               \<lparr> nickname = nick, address = toLowerCase a, active = True,
                 lastChecked = now, trades = [] \<rparr> (copiedWallets s) \<rparr>)))"
  "heap (snd (addWallet rt fetch now a nick s))
     = heap (snd (pollWalletOrders rt fetch now a
         (s\<lparr> copiedWallets := map_set (toLowerCase a)
               \<lparr> nickname = nick, address = toLowerCase a, active = True,
                 lastChecked = now, trades = [] \<rparr> (copiedWallets s) \<rparr>)))"
  "tradeHistory (snd (addWallet rt fetch now a nick s))
     = tradeHistory (snd (pollWalletOrders rt fetch now a
         (s\<lparr> copiedWallets := map_set (toLowerCase a)
               \<lparr> nickname = nick, address = toLowerCase a, active = True,
                 lastChecked = now, trades = [] \<rparr> (copiedWallets s) \<rparr>)))"
  by (simp_all add: addWallet_def Let_def startMonitoring_def
      split: prod.splits completion.splits)

lemma addWallet_registers:
  "\<exists>extra. map_of (copiedWallets (snd (addWallet rt fetch now a nick s))) (toLowerCase a)
             = Some \<lparr> nickname = nick, address = toLowerCase a, active = True,
                      lastChecked = now, trades = extra \<rparr>
          \<and> (\<forall>r \<in> set extra. length (heap s) \<le> r)
          \<and> (getWalletOrders rt fetch a = [] \<longrightarrow> extra = [])"
proof -
  let ?fresh = "\<lparr> nickname = nick, address = toLowerCase a, active = True,
                   lastChecked = now, trades = [] \<rparr>"
  let ?s1 = "s\<lparr> copiedWallets := map_set (toLowerCase a) ?fresh (copiedWallets s) \<rparr>"
  let ?s2 = "snd (pollWalletOrders rt fetch now a ?s1)"
  have reg: "map_of (copiedWallets ?s1) (toLowerCase a) = Some ?fresh"
    by (simp add: map_of_map_set)
  have "grows_to ?s1 ?s2" by (rule grows_to_pollWalletOrders)
  with reg obtain extra where
    e: "map_of (copiedWallets ?s2) (toLowerCase a) = Some (?fresh\<lparr> trades := trades ?fresh @ extra \<rparr>)"
       "\<forall>r \<in> set extra. length (heap ?s1) \<le> r"
    unfolding grows_to_def by blast
  have none: "extra = []" if "getWalletOrders rt fetch a = []"
    using that e(1) reg by (simp add: pollWalletOrders_def)
  from e none show ?thesis
    by (auto simp: addWallet_fields)
qed

lemma processOrder_recorded:
  assumes reg: "map_of (copiedWallets s) (toLowerCase (o_trader order)) = Some w"
  shows "\<exists>w'. map_of (copiedWallets (snd (processOrder now order s)))
                 (toLowerCase (o_trader order)) = Some w'
              \<and> nickname w' = nickname w \<and> address w' = address w
              \<and> 1 \<le> trade_count (snd (processOrder now order s)) w' (o_id order)"
proof (cases rule: processOrder_cases [of s order now])
  case unknown
  with reg show ?thesis by simp
next
  case (existing w0 r)
  with reg have w0: "w0 = w" by simp
  from existing(2) have "r \<in> set (trades w) \<and> has_id (heap s) (o_id order) r"
    unfolding w0 by (rule find_SomeD)
  then have "filter (has_id (heap s) (o_id order)) (trades w) \<noteq> []"
    by (auto simp: filter_empty_conv)
  then have "1 \<le> trade_count s w (o_id order)"
    by (simp add: trade_count_def Suc_le_eq)
  with existing(3) reg show ?thesis by simp
next
  case (new w0)
  with reg have w0: "w0 = w" by simp
  let ?s' = "snd (processOrder now order s)"
  let ?w' = "w\<lparr> trades := trades w @ [length (heap s)] \<rparr>"
  note eqs = processOrder_new [OF new, of now]
  have "has_id (heap ?s') (o_id order) (length (heap s))"
    by (simp add: eqs(2) has_id_def t_id_createTradeRecord)
  then have "1 \<le> trade_count ?s' ?w' (o_id order)"
    by (simp add: trade_count_def)
  moreover have "map_of (copiedWallets ?s') (toLowerCase (o_trader order)) = Some ?w'"
    by (simp add: eqs(3) w0 map_of_map_set)
  ultimately show ?thesis by auto
qed


section \<open>Ownership of trade objects\<close>

lemma refs_ownedD:
  "refs_owned s \<Longrightarrow> (k1, w1) \<in> set (copiedWallets s) \<Longrightarrow> (k2, w2) \<in> set (copiedWallets s) \<Longrightarrow>
   k1 \<noteq> k2 \<Longrightarrow> set (trades w1) \<inter> set (trades w2) = {}"
  unfolding refs_owned_def by blast

lemma refs_owned_entries:
  assumes own: "refs_owned s"
    and sub: "\<And>k w'. (k, w') \<in> set (copiedWallets s') \<Longrightarrow>
           trades w' = [] \<or> (\<exists>w. (k, w) \<in> set (copiedWallets s) \<and> trades w' = trades w)"
  shows "refs_owned s'"
  unfolding refs_owned_def
proof (intro ballI, clarify)
  fix k1 w1 k2 w2
  assume a: "(k1, w1) \<in> set (copiedWallets s')" and b: "(k2, w2) \<in> set (copiedWallets s')"
    and ne: "k1 \<noteq> k2"
  from sub [OF a] sub [OF b] show "set (trades w1) \<inter> set (trades w2) = {}"
    using refs_ownedD [OF own _ _ ne] by (elim disjE exE conjE) simp_all
qed

lemma refs_owned_removeWallet: "refs_owned s \<Longrightarrow> refs_owned (removeWallet a s)"
proof (erule refs_owned_entries)
  fix k w' assume "(k, w') \<in> set (copiedWallets (removeWallet a s))"
  then have "(k, w') \<in> set (copiedWallets s)"
    using set_map_delete [of "toLowerCase a" "copiedWallets s"]
    by (auto simp: removeWallet_def)
  then show "trades w' = [] \<or> (\<exists>w. (k, w) \<in> set (copiedWallets s) \<and> trades w' = trades w)"
    by blast
qed

lemma refs_owned_map_set:
  assumes own: "refs_owned s"
    and w: "trades w = [] \<or> (\<exists>w0. (k, w0) \<in> set (copiedWallets s) \<and> trades w = trades w0)"
  shows "refs_owned (s\<lparr> copiedWallets := map_set k w (copiedWallets s) \<rparr>)"
proof (rule refs_owned_entries [OF own])
  fix k' w' assume "(k', w') \<in> set (copiedWallets
                      (s\<lparr> copiedWallets := map_set k w (copiedWallets s) \<rparr>))"
  then have "(k', w') \<in> set (copiedWallets s) \<or> (k', w') = (k, w)"
    using set_map_set [of k w "copiedWallets s"] by auto
  with w show "trades w' = [] \<or> (\<exists>w. (k', w) \<in> set (copiedWallets s) \<and> trades w' = trades w)"
    by auto
qed

lemma refs_owned_setWalletActive: "refs_owned s \<Longrightarrow> refs_owned (setWalletActive a flag s)"
proof (cases "map_of (copiedWallets s) (toLowerCase a)")
  case None
  assume "refs_owned s"
  with None show ?thesis by (simp add: setWalletActive_def)
next
  case (Some w)
  assume own: "refs_owned s"
  from Some have "(toLowerCase a, w) \<in> set (copiedWallets s)" by (rule map_of_SomeD)
  then have "trades (w\<lparr> active := flag \<rparr>) = []
      \<or> (\<exists>w0. (toLowerCase a, w0) \<in> set (copiedWallets s)
               \<and> trades (w\<lparr> active := flag \<rparr>) = trades w0)"
    by auto
  with own Some show ?thesis
    by (simp add: setWalletActive_def refs_owned_map_set)
qed

lemma refs_owned_processOrder:
  assumes own: "refs_owned s" and valid: "refs_valid s"
  shows "refs_owned (snd (processOrder now order s))"
proof (cases rule: processOrder_cases [of s order now])
  case unknown
  with own show ?thesis by simp
next
  case (existing w r)
  with own show ?thesis by simp
next
  case (new w)
  let ?s' = "snd (processOrder now order s)"
  let ?key = "toLowerCase (o_trader order)"
  let ?w' = "w\<lparr> trades := trades w @ [length (heap s)] \<rparr>"
  note eqs = processOrder_new [OF new, of now]
  from new(1) have w_in: "(?key, w) \<in> set (copiedWallets s)" by (rule map_of_SomeD)
  have entries: "\<And>k x. (k, x) \<in> set (copiedWallets ?s') \<Longrightarrow>
                   (k, x) \<in> set (copiedWallets s) \<or> (k, x) = (?key, ?w')"
    using set_map_set [of ?key ?w' "copiedWallets s"] eqs(3) by auto
  have old_refs: "\<And>k x. (k, x) \<in> set (copiedWallets s) \<Longrightarrow> length (heap s) \<notin> set (trades x)"
    using valid by (auto simp: refs_valid_def)
  show ?thesis
    unfolding refs_owned_def
  proof (intro ballI, clarify)
    fix k1 w1 k2 w2
    assume a: "(k1, w1) \<in> set (copiedWallets ?s')" and b: "(k2, w2) \<in> set (copiedWallets ?s')"
      and ne: "k1 \<noteq> k2"
    from entries [OF a] entries [OF b] show "set (trades w1) \<inter> set (trades w2) = {}"
    proof (elim disjE)
      assume "(k1, w1) \<in> set (copiedWallets s)" "(k2, w2) \<in> set (copiedWallets s)"
      then show ?thesis using refs_ownedD [OF own _ _ ne] by blast
    next
      assume x: "(k1, w1) \<in> set (copiedWallets s)" and y: "(k2, w2) = (?key, ?w')"
      from refs_ownedD [OF own x w_in] ne y
      have "set (trades w1) \<inter> set (trades w) = {}" by simp
      with old_refs [OF x] y show ?thesis by auto
    next
      assume x: "(k1, w1) = (?key, ?w')" and y: "(k2, w2) \<in> set (copiedWallets s)"
      from refs_ownedD [OF own w_in y] ne x
      have "set (trades w) \<inter> set (trades w2) = {}" by simp
      with old_refs [OF y] x show ?thesis by auto
    next
      assume "(k1, w1) = (?key, ?w')" "(k2, w2) = (?key, ?w')"
      with ne show ?thesis by simp
    qed
  qed
qed

lemma owned_ok_forEach:
  "registry_ok s \<Longrightarrow> refs_owned s \<Longrightarrow> refs_owned (snd (forEach_processOrder now orders s))"
proof (induction orders arbitrary: s)
  case Nil
  then show ?case by simp
next
  case (Cons order orders)
  from Cons.prems have ok: "registry_ok (snd (processOrder now order s))"
    by (simp add: registry_ok_processOrder)
  from Cons.prems have own: "refs_owned (snd (processOrder now order s))"
    by (simp add: refs_owned_processOrder registry_ok_def)
  show ?case
  proof (cases "processOrder now order s")
    case (Pair c s')
    with ok own Cons.IH [of s'] show ?thesis
      by (cases c) simp_all
  qed
qed

lemma refs_owned_pollEach:
  "registry_ok s \<Longrightarrow> refs_owned s \<Longrightarrow> refs_owned (snd (pollEach rt fetch now targets s))"
proof (induction targets arbitrary: s)
  case Nil
  then show ?case by simp
next
  case (Cons a targets)
  from Cons.prems have ok: "registry_ok (snd (pollWalletOrders rt fetch now a s))"
    by (simp add: registry_ok_pollWalletOrders)
  from Cons.prems have own: "refs_owned (snd (pollWalletOrders rt fetch now a s))"
    by (simp add: pollWalletOrders_def owned_ok_forEach)
  show ?case
  proof (cases "pollWalletOrders rt fetch now a s")
    case (Pair c s')
    with ok own Cons.IH [of s'] show ?thesis
      by (cases c) simp_all
  qed
qed

lemma refs_owned_updateOrderStatus:
  "refs_owned s \<Longrightarrow> refs_owned (snd (updateOrderStatus now orderId status s))"
  unfolding updateOrderStatus_def
  using updateOrderStatus_loop_effect [of s now orderId status "copiedWallets s"]
  by (auto simp: refs_owned_def)

lemma refs_owned_isMonitoring: "refs_owned (s\<lparr> isMonitoring := b \<rparr>) = refs_owned s"
  by (simp add: refs_owned_def)

lemma refs_owned_addWallet:
  assumes ok: "registry_ok s" and own: "refs_owned s"
  shows "refs_owned (snd (addWallet rt fetch now a nick s))"
proof -
  let ?fresh = "\<lparr> nickname = nick, address = toLowerCase a, active = True,
                   lastChecked = now, trades = [] \<rparr>"
  let ?s1 = "s\<lparr> copiedWallets := map_set (toLowerCase a) ?fresh (copiedWallets s) \<rparr>"
  have ok1: "registry_ok ?s1"
    using ok by (rule registry_ok_map_set) (simp add: trade_ids_def)
  have "refs_owned ?s1"
    using own by (rule refs_owned_map_set) simp
  with ok1 have polled: "refs_owned (snd (pollWalletOrders rt fetch now a ?s1))"
    by (simp add: pollWalletOrders_def owned_ok_forEach)
  show ?thesis
  proof (cases "pollWalletOrders rt fetch now a ?s1")
    case (Pair c s2)
    with polled show ?thesis
      by (cases c) (simp_all add: addWallet_def startMonitoring_def refs_owned_isMonitoring)
  qed
qed

lemma refs_owned_apply_event:
  "registry_ok s \<Longrightarrow> refs_owned s \<Longrightarrow> refs_owned (snd (apply_event rt fetch now ev s))"
  by (cases ev)
    (simp_all add: refs_owned_addWallet refs_owned_removeWallet refs_owned_setWalletActive
      handleWebSocketMessage_def refs_owned_processOrder refs_owned_updateOrderStatus
      pollingSweep_def refs_owned_pollEach registry_ok_def)

lemma refs_owned_run:
  "registry_ok s \<Longrightarrow> refs_owned s \<Longrightarrow> refs_owned (run rt evs s)"
proof (induction evs arbitrary: s)
  case Nil
  then show ?case by simp
next
  case (Cons e evs)
  obtain fetch now ev where e: "e = (fetch, now, ev)" by (cases e)
  from Cons.prems have "registry_ok (snd (apply_event rt fetch now ev s))"
    and "refs_owned (snd (apply_event rt fetch now ev s))"
    by (simp_all add: registry_ok_apply_event refs_owned_apply_event)
  with Cons.IH e show ?case by simp
qed

lemma refs_owned_constructor: "refs_owned constructor"
  by (simp add: refs_owned_def constructor_def)

section \<open>Pausing a wallet\<close>

lemma map_of_keys: "map_of m k \<noteq> None \<longleftrightarrow> k \<in> set (map fst m)"
  by (simp add: map_of_eq_None_iff)

lemma sweepTargets_keys: "set (sweepTargets m) \<subseteq> set (map fst m)"
  by (auto simp: sweepTargets_def)

lemma sweepTargets_filter_absent:
  "k \<notin> set (map fst m) \<Longrightarrow> filter (\<lambda>a. a \<noteq> k) (sweepTargets m) = sweepTargets m"
  using sweepTargets_keys [of m] by (auto simp: filter_id_conv)

lemma sweepTargets_deactivated:
  "distinct (map fst m) \<Longrightarrow> map_of m k = Some w \<Longrightarrow>
   sweepTargets (map_set k (w\<lparr> active := False \<rparr>) m) = filter (\<lambda>a. a \<noteq> k) (sweepTargets m)"
proof (induction m)
  case Nil
  then show ?case by simp
next
  case (Cons p m)
  obtain k' v' where p: "p = (k', v')" by (cases p)
  show ?case
  proof (cases "k' = k")
    case True
    with Cons.prems p have "k \<notin> set (map fst m)" by simp
    then have "filter (\<lambda>a. a \<noteq> k) (sweepTargets m) = sweepTargets m"
      by (rule sweepTargets_filter_absent)
    with True p show ?thesis by (simp add: sweepTargets_def)
  next
    case False
    with Cons p show ?thesis by (simp add: sweepTargets_def)
  qed
qed

lemma sweepTargets_member:
  "(k, w) \<in> set m \<Longrightarrow> active w \<Longrightarrow> k \<in> set (sweepTargets m)"
  by (force simp: sweepTargets_def)

lemma map_set_member: "(k, v) \<in> set (map_set k v m)"
  by (induction m) auto

lemma sweepTargets_activated:
  "k \<in> set (sweepTargets (map_set k (w\<lparr> active := True \<rparr>) m))"
  by (rule sweepTargets_member [OF map_set_member]) simp

lemma setWalletActive_registered:
  "map_of (copiedWallets s) (toLowerCase a) = Some w \<Longrightarrow>
   setWalletActive a flag s
     = s\<lparr> copiedWallets := map_set (toLowerCase a) (w\<lparr> active := flag \<rparr>) (copiedWallets s) \<rparr>"
  by (simp add: setWalletActive_def)

lemma map_set_twice: "map_set k v (map_set k u m) = map_set k v m"
  by (induction m) auto

lemma map_set_same: "map_of m k = Some v \<Longrightarrow> map_set k v m = m"
  by (induction m) (auto split: if_splits)


section \<open>The sample run\<close>

lemma sample_run: "run sample_runtime sample_events constructor = sample_state"
  by code_simp

lemma registry_ok_sample_state: "registry_ok sample_state"
  using registry_ok_run [OF registry_ok_constructor, of sample_runtime sample_events]
  by (simp add: sample_run)

lemma refs_owned_sample_state: "refs_owned sample_state"
  using refs_owned_run [OF registry_ok_constructor refs_owned_constructor,
    of sample_runtime sample_events]
  by (simp add: sample_run)

lemma sample_trade_count: "trade_count sample_state sample_wallet ''1'' = 1"
  by code_simp


section \<open>Claims about deduplication\<close>

text \<open>
  Claim C1. From a well-formed registry, whatever sequence of management calls, timer
  sweeps and push messages is run, no wallet holds more than one trade for any order
  identifier. When a poll and then a push message deliver an order for a registered
  wallet, that wallet holds exactly one trade with the order's identifier afterwards
  (the second delivery ends in a TypeError, with the list as it was).
  The server's \<open>processOrder\<close> keeps the identifiers of a wallet distinct too, and
  two deliveries leave exactly one trade.
\<close>

theorem one_trade_per_order_id:
  assumes ok: "registry_ok s"
  shows "(\<forall>(k, w) \<in> set (copiedWallets (run rt evs s)).
            trade_count (run rt evs s) w orderId \<le> 1)
    \<and> (map_of (copiedWallets s) (toLowerCase (raw_trader raw)) \<noteq> None
        \<and> fetch (baseURL @ ''/orders?trader='' @ toLowerCase a) = Response 200 (OrderArray [raw])
        \<and> raw_id raw' = raw_id raw
        \<and> toLowerCase (raw_trader raw') = toLowerCase (raw_trader raw)
        \<and> (ty = ''order_created'' \<or> ty = ''order_updated'') \<longrightarrow>
        (\<exists>w. map_of (copiedWallets
                  (snd (handleWebSocketMessage rt now' \<lparr> msg_type = ty, msg_data = raw' \<rparr>
                     (snd (pollWalletOrders rt fetch now a s)))))
                (toLowerCase (raw_trader raw)) = Some w
            \<and> trade_count
                  (snd (handleWebSocketMessage rt now' \<lparr> msg_type = ty, msg_data = raw' \<rparr>
                     (snd (pollWalletOrders rt fetch now a s))))
                  w (raw_id raw) = 1))
    \<and> (distinct (map st_id (sw_trades sw)) \<longrightarrow>
          distinct (map st_id (sw_trades (fst (srv_processOrder now order (sw, g)))))
          \<and> length (filter (\<lambda>t. st_id t = o_id order)
               (sw_trades (fst (srv_processOrder now' order
                  (srv_processOrder now order (sw, g)))))) = 1)"
proof (intro conjI impI)
  from ok have "registry_ok (run rt evs s)" by (rule registry_ok_run)
  then show "\<forall>(k, w) \<in> set (copiedWallets (run rt evs s)).
            trade_count (run rt evs s) w orderId \<le> 1"
    using trade_count_le_one by blast
next
  assume h: "map_of (copiedWallets s) (toLowerCase (raw_trader raw)) \<noteq> None
        \<and> fetch (baseURL @ ''/orders?trader='' @ toLowerCase a) = Response 200 (OrderArray [raw])
        \<and> raw_id raw' = raw_id raw
        \<and> toLowerCase (raw_trader raw') = toLowerCase (raw_trader raw)
        \<and> (ty = ''order_created'' \<or> ty = ''order_updated'')"
  let ?s1 = "snd (pollWalletOrders rt fetch now a s)"
  let ?o = "parseOrder rt raw'"
  from ok have ok1: "registry_ok ?s1" by (rule registry_ok_pollWalletOrders)
  have "grows_to s ?s1" by (rule grows_to_pollWalletOrders)
  with h have "map_of (copiedWallets ?s1) (toLowerCase (raw_trader raw)) \<noteq> None"
    using grows_to_registered by blast
  with h obtain w1 where "map_of (copiedWallets ?s1) (toLowerCase (o_trader ?o)) = Some w1"
    by (auto simp: parseOrder_def)
  from processOrder_count_one [OF ok1 this, of now']
  have "\<exists>w'. map_of (copiedWallets (snd (processOrder now' ?o ?s1)))
                 (toLowerCase (raw_trader raw)) = Some w'
              \<and> trade_count (snd (processOrder now' ?o ?s1)) w' (raw_id raw) = 1"
    using h by (simp add: parseOrder_def)
  moreover have "handleWebSocketMessage rt now' \<lparr> msg_type = ty, msg_data = raw' \<rparr> ?s1
                   = processOrder now' ?o ?s1"
    using h by (auto simp: handleWebSocketMessage_def)
  ultimately show "\<exists>w. map_of (copiedWallets
                  (snd (handleWebSocketMessage rt now' \<lparr> msg_type = ty, msg_data = raw' \<rparr>
                     (snd (pollWalletOrders rt fetch now a s)))))
                (toLowerCase (raw_trader raw)) = Some w
            \<and> trade_count
                  (snd (handleWebSocketMessage rt now' \<lparr> msg_type = ty, msg_data = raw' \<rparr>
                     (snd (pollWalletOrders rt fetch now a s))))
                  w (raw_id raw) = 1"
    by simp
next
  assume "distinct (map st_id (sw_trades sw))"
  then show "distinct (map st_id (sw_trades (fst (srv_processOrder now order (sw, g)))))"
    by (rule srv_processOrder_distinct)
next
  assume d: "distinct (map st_id (sw_trades sw))"
  obtain sw1 g1 where p: "srv_processOrder now order (sw, g) = (sw1, g1)"
    by (cases "srv_processOrder now order (sw, g)")
  from srv_processOrder_distinct [OF d, of now order g] p
  have "distinct (map st_id (sw_trades sw1))" by simp
  from srv_processOrder_count_one [OF this, of order now' g1] p
  show "length (filter (\<lambda>t. st_id t = o_id order)
               (sw_trades (fst (srv_processOrder now' order
                  (srv_processOrder now order (sw, g)))))) = 1"
    by simp
qed
theorem one_trade_per_order_id_witness:
  "registry_ok constructor
   \<and> run sample_runtime sample_events constructor = sample_state
   \<and> copiedWallets sample_state = [(''0xabc'', sample_wallet)]
   \<and> (''0xabc'', sample_wallet)
        \<in> set (copiedWallets (run sample_runtime sample_events constructor))
   \<and> trade_count (run sample_runtime sample_events constructor) sample_wallet ''1'' \<le> 1
   \<and> trade_count sample_state sample_wallet ''1'' = 1
   \<and> map_of (copiedWallets sample_state) (toLowerCase (raw_trader (sample_raw ''OPEN''))) \<noteq> None
   \<and> (\<exists>w. map_of (copiedWallets
                  (snd (handleWebSocketMessage sample_runtime 7
                     \<lparr> msg_type = ''order_updated'', msg_data = sample_raw ''FILLED'' \<rparr>
                     (snd (pollWalletOrders sample_runtime (net_orders [sample_raw ''OPEN'']) 6
                        ''0xABC'' sample_state)))))
                (toLowerCase (raw_trader (sample_raw ''OPEN''))) = Some w
            \<and> trade_count
                  (snd (handleWebSocketMessage sample_runtime 7
                     \<lparr> msg_type = ''order_updated'', msg_data = sample_raw ''FILLED'' \<rparr>
                     (snd (pollWalletOrders sample_runtime (net_orders [sample_raw ''OPEN'']) 6
                        ''0xABC'' sample_state))))
                  w (raw_id (sample_raw ''OPEN'')) = 1)
   \<and> distinct (map st_id (sw_trades sample_srv_wallet))
   \<and> length (filter (\<lambda>t. st_id t = o_id (parseOrder sample_runtime (sample_raw ''OPEN'')))
        (sw_trades (fst (srv_processOrder 7 (parseOrder sample_runtime (sample_raw ''OPEN''))
           (srv_processOrder 6 (parseOrder sample_runtime (sample_raw ''OPEN''))
              (sample_srv_wallet, srv_initial)))))) = 1"
proof -
  have reg: "map_of (copiedWallets sample_state) (toLowerCase (raw_trader (sample_raw ''OPEN'')))
               \<noteq> None"
    by (simp add: sample_state_def sample_raw_def lower_0xABC)
  have net: "net_orders [sample_raw ''OPEN''] (baseURL @ ''/orders?trader='' @ toLowerCase ''0xABC'')
               = Response 200 (OrderArray [sample_raw ''OPEN''])"
    by (simp add: net_orders_def)
  have same: "raw_id (sample_raw ''FILLED'') = raw_id (sample_raw ''OPEN'')
      \<and> toLowerCase (raw_trader (sample_raw ''FILLED''))
          = toLowerCase (raw_trader (sample_raw ''OPEN''))"
    by (simp add: sample_raw_def)
  have srv: "distinct (map st_id (sw_trades sample_srv_wallet))"
    by (simp add: sample_srv_wallet_def)
  have entries: "copiedWallets sample_state = [(''0xabc'', sample_wallet)]"
    by (simp add: sample_state_def)
  from one_trade_per_order_id
      [where s = constructor and rt = sample_runtime and evs = sample_events
         and orderId = "''1''", OF registry_ok_constructor]
  have "\<forall>(k, w) \<in> set (copiedWallets (run sample_runtime sample_events constructor)).
         trade_count (run sample_runtime sample_events constructor) w ''1'' \<le> 1"
    by blast
  moreover have member: "(''0xabc'', sample_wallet)
        \<in> set (copiedWallets (run sample_runtime sample_events constructor))"
    by (simp add: sample_run entries)
  ultimately have a:
    "trade_count (run sample_runtime sample_events constructor) sample_wallet ''1'' \<le> 1"
    by blast
  from one_trade_per_order_id
      [where s = sample_state and rt = sample_runtime and raw = "sample_raw ''OPEN''"
         and fetch = "net_orders [sample_raw ''OPEN'']" and a = "''0xABC''"
         and raw' = "sample_raw ''FILLED''" and ty = "''order_updated''"
         and now = 6 and now' = 7 and sw = sample_srv_wallet
         and order = "parseOrder sample_runtime (sample_raw ''OPEN'')" and g = srv_initial,
       OF registry_ok_sample_state]
    reg net same srv
  have b: "\<exists>w. map_of (copiedWallets
                  (snd (handleWebSocketMessage sample_runtime 7
                     \<lparr> msg_type = ''order_updated'', msg_data = sample_raw ''FILLED'' \<rparr>
                     (snd (pollWalletOrders sample_runtime (net_orders [sample_raw ''OPEN'']) 6
                        ''0xABC'' sample_state)))))
                (toLowerCase (raw_trader (sample_raw ''OPEN''))) = Some w
            \<and> trade_count
                  (snd (handleWebSocketMessage sample_runtime 7
                     \<lparr> msg_type = ''order_updated'', msg_data = sample_raw ''FILLED'' \<rparr>
                     (snd (pollWalletOrders sample_runtime (net_orders [sample_raw ''OPEN'']) 6
                        ''0xABC'' sample_state))))
                  w (raw_id (sample_raw ''OPEN'')) = 1"
    and c: "length (filter (\<lambda>t. st_id t = o_id (parseOrder sample_runtime (sample_raw ''OPEN'')))
        (sw_trades (fst (srv_processOrder 7 (parseOrder sample_runtime (sample_raw ''OPEN''))
           (srv_processOrder 6 (parseOrder sample_runtime (sample_raw ''OPEN''))
              (sample_srv_wallet, srv_initial)))))) = 1"
    by blast+
  from registry_ok_constructor sample_run entries member a sample_trade_count reg b srv c
  show ?thesis by blast
qed

lemma second_poll_throws:
  "pollWalletOrders sample_runtime (net_orders [sample_raw ''FILLED'']) 6 ''0xABC'' sample_state
     = (Throw (TypeError ''this.updateTrade is not a function''), sample_state)"
  by code_simp

lemma second_sweep_throws:
  "pollingSweep sample_runtime (net_orders [sample_raw ''FILLED'']) 6 sample_state
     = (Throw (TypeError ''this.updateTrade is not a function''), sample_state)"
  by code_simp

lemma sample_dashboard:
  "map v_trades (d_wallets (getDashboardData sample_runtime 7 sample_state)) = [1]
   \<and> activeTrades (d_stats (getDashboardData sample_runtime 7 sample_state)) = 1
   \<and> map t_status (wallet_trades sample_state sample_wallet) = [''OPEN'']
   \<and> map t_updatedAt (wallet_trades sample_state sample_wallet) = [None]"
  by code_simp

lemma server_second_poll:
  "activeTrades (srv_stats
      (srv_pollWalletOrders sample_runtime (net_orders [sample_raw ''FILLED'']) 6 ''0xABC''
         (srv_addWallet sample_runtime (net_orders [sample_raw ''OPEN'']) 5 ''0xABC'' ''X''
            srv_initial))) = 1
   \<and> map st_status (srv_tradeHistory
      (srv_pollWalletOrders sample_runtime (net_orders [sample_raw ''FILLED'']) 6 ''0xABC''
         (srv_addWallet sample_runtime (net_orders [sample_raw ''OPEN'']) 5 ''0xABC'' ''X''
            srv_initial))) = [''OPEN'']"
  by code_simp

text \<open>
  Claim C2. The claim is that an order whose identifier is already recorded has its
  trade's status and update time assigned in place, without an exception, and that a
  FILLED status takes one off the active-trade counter, so that the dashboard shows one
  trade and no active trade after an OPEN order is polled again as FILLED. The code does
  not do this. Wallet \<open>0xABC\<close> is added and its first poll finds order \<open>1\<close> open,
  which gives \<open>sample_state\<close> with one active trade. The second poll, and likewise a
  timer sweep, delivers the order as FILLED: \<open>processOrder\<close> calls the undefined
  \<open>updateTrade\<close> and throws, the state is the one before the poll, the dashboard
  still counts one active trade, and the trade is still OPEN with no update time. In
  the server the repeated order is skipped and the counter stays at one as well.
\<close>

theorem repeated_order_update_fails:
  "addWallet sample_runtime (net_orders [sample_raw ''OPEN'']) 5 ''0xABC'' ''X'' constructor
     = (Normal, sample_state)
   \<and> pollWalletOrders sample_runtime (net_orders [sample_raw ''FILLED'']) 6 ''0xABC''
         sample_state
       = (Throw (TypeError ''this.updateTrade is not a function''), sample_state)
   \<and> pollingSweep sample_runtime (net_orders [sample_raw ''FILLED'']) 6 sample_state
       = (Throw (TypeError ''this.updateTrade is not a function''), sample_state)
   \<and> map v_trades (d_wallets (getDashboardData sample_runtime 7 sample_state)) = [1]
   \<and> activeTrades (d_stats (getDashboardData sample_runtime 7 sample_state)) = 1
   \<and> map t_status (wallet_trades sample_state sample_wallet) = [''OPEN'']
   \<and> map t_updatedAt (wallet_trades sample_state sample_wallet) = [None]
   \<and> activeTrades (srv_stats
        (srv_pollWalletOrders sample_runtime (net_orders [sample_raw ''FILLED'']) 6 ''0xABC''
           (srv_addWallet sample_runtime (net_orders [sample_raw ''OPEN'']) 5 ''0xABC'' ''X''
              srv_initial))) = 1"
  using sample_state_built second_poll_throws second_sweep_throws sample_dashboard
    server_second_poll
  by blast

section \<open>Claims about registration\<close>

text \<open>
  Claim C3. A wallet is added under an address \<open>a\<close>; an order names its trader by
  the same address in any other casing. The lookup of \<open>processOrder\<close> finds the record
  that \<open>addWallet\<close> stored under \<open>a\<close>, with the nickname given then, and after
  \<open>processOrder\<close> that record holds a trade with the order's identifier.
\<close>

theorem address_resolution_ignores_case:
  assumes same: "same_address_any_casing a (o_trader order)"
  shows "\<exists>w w'.
           map_of (copiedWallets (snd (addWallet rt fetch now a nick s)))
               (toLowerCase (o_trader order)) = Some w
         \<and> map_of (copiedWallets (snd (addWallet rt fetch now a nick s))) (toLowerCase a)
             = Some w
         \<and> nickname w = nick \<and> address w = toLowerCase a
         \<and> map_of (copiedWallets
               (snd (processOrder now' order (snd (addWallet rt fetch now a nick s)))))
               (toLowerCase a) = Some w'
         \<and> nickname w' = nick \<and> address w' = toLowerCase a
         \<and> 1 \<le> trade_count
                  (snd (processOrder now' order (snd (addWallet rt fetch now a nick s))))
                  w' (o_id order)"
proof -
  let ?s' = "snd (addWallet rt fetch now a nick s)"
  from same have key: "toLowerCase (o_trader order) = toLowerCase a"
    by (simp add: same_address_lower)
  from addWallet_registers [of rt fetch now a nick s] obtain w where
    w: "map_of (copiedWallets ?s') (toLowerCase a) = Some w"
       "nickname w = nick" "address w = toLowerCase a"
    by auto
  from w(1) key have "map_of (copiedWallets ?s') (toLowerCase (o_trader order)) = Some w"
    by simp
  from processOrder_recorded [OF this, of now'] obtain w' where
    "map_of (copiedWallets (snd (processOrder now' order ?s'))) (toLowerCase a) = Some w'"
    "nickname w' = nick" "address w' = toLowerCase a"
    "1 \<le> trade_count (snd (processOrder now' order ?s')) w' (o_id order)"
    using key w(2,3) by auto
  with w key show ?thesis by auto
qed

theorem address_resolution_ignores_case_witness:
  "same_address_any_casing ''0xAbC'' (o_trader sample_order)
   \<and> ''0xAbC'' \<noteq> o_trader sample_order
   \<and> (\<exists>w w'.
         map_of (copiedWallets (snd (addWallet sample_runtime net_down 5 ''0xAbC'' ''X'' constructor)))
             (toLowerCase (o_trader sample_order)) = Some w
       \<and> map_of (copiedWallets (snd (addWallet sample_runtime net_down 5 ''0xAbC'' ''X'' constructor)))
             (toLowerCase ''0xAbC'') = Some w
       \<and> nickname w = ''X'' \<and> address w = toLowerCase ''0xAbC''
       \<and> map_of (copiedWallets
             (snd (processOrder 6 sample_order
                (snd (addWallet sample_runtime net_down 5 ''0xAbC'' ''X'' constructor)))))
             (toLowerCase ''0xAbC'') = Some w'
       \<and> nickname w' = ''X'' \<and> address w' = toLowerCase ''0xAbC''
       \<and> 1 \<le> trade_count
                (snd (processOrder 6 sample_order
                   (snd (addWallet sample_runtime net_down 5 ''0xAbC'' ''X'' constructor))))
                w' (o_id sample_order))
   \<and> trades (the (map_of (copiedWallets
             (snd (processOrder 6 sample_order
                (snd (addWallet sample_runtime net_down 5 ''0xAbC'' ''X'' constructor)))))
             ''0xabc'')) = [0]"
proof -
  have same: "same_address_any_casing ''0xAbC'' (o_trader sample_order)"
    by (simp add: sample_order_def parseOrder_def sample_raw_def same_address_any_casing_def
        same_letter_def letter_table_def upper_letters_def lower_letters_def)
  have differ: "''0xAbC'' \<noteq> o_trader sample_order"
    by (simp add: sample_order_def parseOrder_def sample_raw_def)
  have shown: "trades (the (map_of (copiedWallets
             (snd (processOrder 6 sample_order
                (snd (addWallet sample_runtime net_down 5 ''0xAbC'' ''X'' constructor)))))
             ''0xabc'')) = [0]"
    by code_simp
  from address_resolution_ignores_case
    [where a = "''0xAbC''" and order = sample_order and rt = sample_runtime
       and fetch = net_down and now = 5 and nick = "''X''" and s = constructor and now' = 6,
     OF same] same differ shown
  show ?thesis by blast
qed

text \<open>
  Claim C9. \<open>addWallet\<close> for an address that is already registered leaves under its
  key a fresh record: the new nickname, active, and a trade list that holds only trades
  created by this call's own poll (none when the poll returns nothing). No wallet of
  the registry references a trade of the replaced record's list any more, while the
  trade objects and the global history of before are still there, as a prefix.
\<close>

theorem addWallet_replaces_record:
  assumes old: "map_of (copiedWallets s) (toLowerCase a) = Some old"
    and valid: "refs_valid s" and own: "refs_owned s"
  shows "\<exists>extra.
           map_of (copiedWallets (snd (addWallet rt fetch now a nick s))) (toLowerCase a)
             = Some \<lparr> nickname = nick, address = toLowerCase a, active = True,
                      lastChecked = now, trades = extra \<rparr>
         \<and> (\<forall>r \<in> set extra. length (heap s) \<le> r)
         \<and> (getWalletOrders rt fetch a = [] \<longrightarrow> extra = [])
         \<and> (\<forall>k w. map_of (copiedWallets (snd (addWallet rt fetch now a nick s))) k = Some w
               \<longrightarrow> set (trades w) \<inter> set (trades old) = {})
         \<and> (\<exists>ts. heap (snd (addWallet rt fetch now a nick s)) = heap s @ ts)
         \<and> (\<exists>rs. tradeHistory (snd (addWallet rt fetch now a nick s)) = tradeHistory s @ rs)
         \<and> map fst (copiedWallets (snd (addWallet rt fetch now a nick s)))
             = map fst (copiedWallets s)"
proof -
  let ?key = "toLowerCase a"
  let ?fresh = "\<lparr> nickname = nick, address = ?key, active = True,
                   lastChecked = now, trades = [] \<rparr>"
  let ?s1 = "s\<lparr> copiedWallets := map_set ?key ?fresh (copiedWallets s) \<rparr>"
  let ?s2 = "snd (pollWalletOrders rt fetch now a ?s1)"
  let ?s' = "snd (addWallet rt fetch now a nick s)"
  from addWallet_registers [of rt fetch now a nick s] obtain extra where
    e: "map_of (copiedWallets ?s') ?key
             = Some \<lparr> nickname = nick, address = ?key, active = True,
                      lastChecked = now, trades = extra \<rparr>"
       "\<forall>r \<in> set extra. length (heap s) \<le> r"
       "getWalletOrders rt fetch a = [] \<longrightarrow> extra = []"
    by blast
  from old have old_in: "(?key, old) \<in> set (copiedWallets s)" by (rule map_of_SomeD)
  with valid have old_refs: "\<forall>r \<in> set (trades old). r < length (heap s)"
    by (auto simp: refs_valid_def)
  have g: "grows_to ?s1 ?s2" by (rule grows_to_pollWalletOrders)
  then have h: "\<exists>ts. heap ?s' = heap s @ ts"
    and th: "\<exists>rs. tradeHistory ?s' = tradeHistory s @ rs"
    by (simp_all add: addWallet_fields grows_to_def)
  from g old have keys: "map fst (copiedWallets ?s') = map fst (copiedWallets s)"
    by (simp add: addWallet_fields grows_to_def map_fst_map_set)
  have unreachable: "set (trades w) \<inter> set (trades old) = {}"
    if kw: "map_of (copiedWallets ?s') k = Some w" for k w
  proof -
    from kw have "k \<in> set (map fst (copiedWallets ?s'))"
      using map_of_keys [of "copiedWallets ?s'" k] by simp
    with g have "k \<in> set (map fst (copiedWallets ?s1))"
      by (simp add: addWallet_fields grows_to_def)
    then obtain x where x: "map_of (copiedWallets ?s1) k = Some x"
      using map_of_keys [of "copiedWallets ?s1" k] by auto
    with g obtain ex where
      ex: "map_of (copiedWallets ?s2) k = Some (x\<lparr> trades := trades x @ ex \<rparr>)"
          "\<forall>r \<in> set ex. length (heap ?s1) \<le> r"
      unfolding grows_to_def by blast
    from ex(1) kw have w: "trades w = trades x @ ex" by (auto simp: addWallet_fields)
    from ex(2) old_refs have new_disj: "set ex \<inter> set (trades old) = {}" by fastforce
    have "set (trades x) \<inter> set (trades old) = {}"
    proof (cases "k = ?key")
      case True
      with x have "x = ?fresh" by (simp add: map_of_map_set)
      then show ?thesis by simp
    next
      case False
      with x have "map_of (copiedWallets s) k = Some x" by (simp add: map_of_map_set)
      then have "(k, x) \<in> set (copiedWallets s)" by (rule map_of_SomeD)
      from refs_ownedD [OF own this old_in False] show ?thesis .
    qed
    with new_disj w show ?thesis by auto
  qed
  from e h th keys unreachable show ?thesis by blast
qed

theorem addWallet_replaces_record_witness:
  "map_of (copiedWallets sample_state) (toLowerCase ''0xAbC'') = Some sample_wallet
   \<and> trades sample_wallet = [0]
   \<and> refs_valid sample_state \<and> refs_owned sample_state
   \<and> map_of (copiedWallets (snd (addWallet sample_runtime net_down 9 ''0xAbC'' ''Y'' sample_state)))
        (toLowerCase ''0xAbC'')
       = Some \<lparr> nickname = ''Y'', address = ''0xabc'', active = True, lastChecked = 9,
                trades = [] \<rparr>
   \<and> tradeHistory (snd (addWallet sample_runtime net_down 9 ''0xAbC'' ''Y'' sample_state)) = [0]
   \<and> heap (snd (addWallet sample_runtime net_down 9 ''0xAbC'' ''Y'' sample_state))
       = heap sample_state
   \<and> map_of (copiedWallets
         (snd (addWallet sample_runtime (net_orders [sample_raw ''OPEN'']) 9 ''0xAbC'' ''Y''
            sample_state))) ''0xabc''
       = Some \<lparr> nickname = ''Y'', address = ''0xabc'', active = True, lastChecked = 9,
                trades = [1] \<rparr>
   \<and> tradeHistory
         (snd (addWallet sample_runtime (net_orders [sample_raw ''OPEN'']) 9 ''0xAbC'' ''Y''
            sample_state)) = [0, 1]"
proof -
  have low: "toLowerCase ''0xAbC'' = ''0xabc''"
    by (simp add: toLowerCase_def lower_char_def letter_table_def upper_letters_def
        lower_letters_def)
  have old: "map_of (copiedWallets sample_state) (toLowerCase ''0xAbC'') = Some sample_wallet"
    by (simp add: sample_state_def low)
  have tr: "trades sample_wallet = [0]" by (simp add: sample_wallet_def)
  have valid: "refs_valid sample_state"
    using registry_ok_sample_state by (simp add: registry_ok_def)
  have none: "getWalletOrders sample_runtime net_down ''0xAbC'' = []"
    by (simp add: getWalletOrders_def getWalletOrders_try_def net_down_def)
  from addWallet_replaces_record [OF old valid refs_owned_sample_state,
      where rt = sample_runtime and fetch = net_down and now = 9 and nick = "''Y''"]
    none low
  have a: "map_of (copiedWallets (snd (addWallet sample_runtime net_down 9 ''0xAbC'' ''Y''
               sample_state))) (toLowerCase ''0xAbC'')
       = Some \<lparr> nickname = ''Y'', address = ''0xabc'', active = True, lastChecked = 9,
                trades = [] \<rparr>"
    by auto
  have b: "tradeHistory (snd (addWallet sample_runtime net_down 9 ''0xAbC'' ''Y'' sample_state))
             = [0]
   \<and> heap (snd (addWallet sample_runtime net_down 9 ''0xAbC'' ''Y'' sample_state))
       = heap sample_state"
    by code_simp
  have c: "map_of (copiedWallets
         (snd (addWallet sample_runtime (net_orders [sample_raw ''OPEN'']) 9 ''0xAbC'' ''Y''
            sample_state))) ''0xabc''
       = Some \<lparr> nickname = ''Y'', address = ''0xabc'', active = True, lastChecked = 9,
                trades = [1] \<rparr>
   \<and> tradeHistory
         (snd (addWallet sample_runtime (net_orders [sample_raw ''OPEN'']) 9 ''0xAbC'' ''Y''
            sample_state)) = [0, 1]"
    by code_simp
  from old tr valid refs_owned_sample_state a b c show ?thesis by blast
qed
section \<open>Push messages and the active flag\<close>














section \<open>Claims about the active flag\<close>

text \<open>
  Claim C7. For a registered wallet, \<open>setWalletActive\<close> with \<open>false\<close> takes its
  address, and only its address, out of the addresses the next sweep polls. Its record
  changes in the \<open>active\<close> field alone (the trade list is kept), every other record,
  the order of the map, the trade objects, the history and the counters are unchanged.
  Setting the flag to \<open>true\<close> again puts the address back among the sweep's
  targets, and gives back the very state there was if the wallet was active before.
\<close>

theorem deactivated_wallet_not_polled:
  assumes keys: "keys_distinct s"
    and reg: "map_of (copiedWallets s) (toLowerCase a) = Some w"
  shows "toLowerCase a \<notin> set (sweepTargets (copiedWallets (setWalletActive a False s)))
    \<and> sweepTargets (copiedWallets (setWalletActive a False s))
        = filter (\<lambda>k. k \<noteq> toLowerCase a) (sweepTargets (copiedWallets s))
    \<and> pollingSweep rt fetch now (setWalletActive a False s)
        = pollEach rt fetch now
            (filter (\<lambda>k. k \<noteq> toLowerCase a) (sweepTargets (copiedWallets s)))
            (setWalletActive a False s)
    \<and> map_of (copiedWallets (setWalletActive a False s)) (toLowerCase a)
        = Some (w\<lparr> active := False \<rparr>)
    \<and> (\<forall>k. k \<noteq> toLowerCase a \<longrightarrow>
          map_of (copiedWallets (setWalletActive a False s)) k = map_of (copiedWallets s) k)
    \<and> map fst (copiedWallets (setWalletActive a False s)) = map fst (copiedWallets s)
    \<and> heap (setWalletActive a False s) = heap s
    \<and> tradeHistory (setWalletActive a False s) = tradeHistory s
    \<and> stats (setWalletActive a False s) = stats s
    \<and> isMonitoring (setWalletActive a False s) = isMonitoring s
    \<and> testMode (setWalletActive a False s) = testMode s
    \<and> toLowerCase a
        \<in> set (sweepTargets (copiedWallets (setWalletActive a True (setWalletActive a False s))))
    \<and> setWalletActive a True (setWalletActive a False s)
        = s\<lparr> copiedWallets := map_set (toLowerCase a) (w\<lparr> active := True \<rparr>) (copiedWallets s) \<rparr>
    \<and> (active w \<longrightarrow> setWalletActive a True (setWalletActive a False s) = s)"
proof -
  let ?key = "toLowerCase a"
  let ?off = "setWalletActive a False s"
  have paused_state: "?off = s\<lparr> copiedWallets := map_set ?key (w\<lparr> active := False \<rparr>) (copiedWallets s) \<rparr>"
    using reg by (rule setWalletActive_registered)
  have targets: "sweepTargets (copiedWallets ?off)
        = filter (\<lambda>k. k \<noteq> ?key) (sweepTargets (copiedWallets s))"
    using keys reg by (simp add: paused_state keys_distinct_def sweepTargets_deactivated)
  then have excluded: "?key \<notin> set (sweepTargets (copiedWallets ?off))" by simp
  have sweep: "pollingSweep rt fetch now ?off
        = pollEach rt fetch now
            (filter (\<lambda>k. k \<noteq> ?key) (sweepTargets (copiedWallets s))) ?off"
    by (simp only: pollingSweep_def targets)
  have entry: "map_of (copiedWallets ?off) ?key = Some (w\<lparr> active := False \<rparr>)"
    by (simp add: paused_state map_of_map_set)
  have others: "\<forall>k. k \<noteq> ?key \<longrightarrow> map_of (copiedWallets ?off) k = map_of (copiedWallets s) k"
    by (simp add: paused_state map_of_map_set)
  have order: "map fst (copiedWallets ?off) = map fst (copiedWallets s)"
    using reg by (simp add: paused_state map_fst_map_set)
  have frame: "heap ?off = heap s \<and> tradeHistory ?off = tradeHistory s \<and> stats ?off = stats s
      \<and> isMonitoring ?off = isMonitoring s \<and> testMode ?off = testMode s"
    by (simp add: paused_state)
  have reactivated: "setWalletActive a True ?off
        = s\<lparr> copiedWallets := map_set ?key (w\<lparr> active := True \<rparr>) (copiedWallets s) \<rparr>"
    unfolding setWalletActive_registered [OF entry] by (simp add: paused_state map_set_twice)
  have included: "?key \<in> set (sweepTargets (copiedWallets (setWalletActive a True ?off)))"
    by (simp add: reactivated sweepTargets_activated)
  have restored: "setWalletActive a True ?off = s" if "active w"
  proof -
    from that have "w\<lparr> active := True \<rparr> = w" by simp
    with reg show ?thesis by (simp add: reactivated map_set_same)
  qed
  from excluded targets sweep entry others order frame included reactivated restored
  show ?thesis by blast
qed

theorem deactivated_wallet_not_polled_witness:
  "keys_distinct sample_state
   \<and> map_of (copiedWallets sample_state) (toLowerCase ''0xABC'') = Some sample_wallet
   \<and> active sample_wallet
   \<and> sweepTargets (copiedWallets sample_state) = [''0xabc'']
   \<and> sweepTargets (copiedWallets (setWalletActive ''0xABC'' False sample_state)) = []
   \<and> toLowerCase ''0xABC''
        \<notin> set (sweepTargets (copiedWallets (setWalletActive ''0xABC'' False sample_state)))
   \<and> map_of (copiedWallets (setWalletActive ''0xABC'' False sample_state)) (toLowerCase ''0xABC'')
        = Some (sample_wallet\<lparr> active := False \<rparr>)
   \<and> trades (sample_wallet\<lparr> active := False \<rparr>) = [0]
   \<and> heap (setWalletActive ''0xABC'' False sample_state) = heap sample_state
   \<and> setWalletActive ''0xABC'' True (setWalletActive ''0xABC'' False sample_state) = sample_state"
proof -
  have keys: "keys_distinct sample_state"
    by (simp add: keys_distinct_def sample_state_def)
  have reg: "map_of (copiedWallets sample_state) (toLowerCase ''0xABC'') = Some sample_wallet"
    by (simp add: sample_state_def lower_0xABC)
  have act: "active sample_wallet" and tr: "trades (sample_wallet\<lparr> active := False \<rparr>) = [0]"
    by (simp_all add: sample_wallet_def)
  have before: "sweepTargets (copiedWallets sample_state) = [''0xabc'']"
    by (simp add: sweepTargets_def sample_state_def sample_wallet_def)
  note inst = deactivated_wallet_not_polled [OF keys reg]
  from inst before
  have after: "sweepTargets (copiedWallets (setWalletActive ''0xABC'' False sample_state)) = []"
    by (simp add: lower_0xABC)
  from inst keys reg act tr before after show ?thesis by blast
qed




end
